theory Spec2Isabelle
  imports
    Complex_Main
    "HOL-Library.Char_ord"
    "HOL-Library.List_Lexorder"
    "HOL-Library.Product_Lexorder"
    "HOL-Library.AList"
begin

unbundle bit_operations_syntax

section \<open>The Link of snakemq (src/snakemq/link.py)\<close>

text \<open>
  The class \<open>Link\<close> keeps the open TCP connections of the message queue. The embedding
  follows the Python source method by method:
  \<^item> the attributes of a \<open>Link\<close> object are the fields of the record \<open>link\<close>;
  \<^item> every method takes the state and returns an outcome (the returned value or the
    exception raised) together with the state as the method left it, since a Python
    exception keeps the mutations made before it;
  \<^item> the answers of the operating system (the result of a \<open>send\<close>, of \<open>connect_ex\<close>,
    of a TLS handshake step, the clock) are the fields of the record \<open>os_env\<close>, given to the
    method that asks for them;
  \<^item> the callbacks fired (which do not call back into the \<open>Link\<close>) and the connect,
    shutdown and close calls on sockets are appended to the field \<open>trace\<close>, in the order in
    which the source makes them;
  \<^item> a Python dictionary is an association list in insertion order: \<open>d[k] = v\<close> is
    \<open>AList.update k v d\<close>, \<open>del d[k]\<close> is \<open>AList.delete k d\<close> after the test that raises
    \<open>KeyError\<close>, \<open>d.get(k)\<close> is \<open>map_of d k\<close>; Python sets are sets;
  \<^item> times are real numbers (the rounding of Python floats is not modelled), and the
    planned connections are compared as Python compares tuples, lexicographically.
  Logging is not modelled.
\<close>

subsection \<open>Constants of the modules select and errno\<close>

definition EPOLLIN :: nat where "EPOLLIN = 1"
definition EPOLLPRI :: nat where "EPOLLPRI = 2"
definition EPOLLOUT :: nat where "EPOLLOUT = 4"
definition EPOLLERR :: nat where "EPOLLERR = 8"
definition EPOLLHUP :: nat where "EPOLLHUP = 16"

definition EBADF :: int where "EBADF = 9"
definition EWOULDBLOCK :: int where "EWOULDBLOCK = 11"
definition EPIPE :: int where "EPIPE = 32"
definition ECONNABORTED :: int where "ECONNABORTED = 103"
definition ECONNRESET :: int where "ECONNRESET = 104"
definition EISCONN :: int where "EISCONN = 106"
definition ENOTCONN :: int where "ENOTCONN = 107"
definition ESHUTDOWN :: int where "ESHUTDOWN = 108"
definition EINPROGRESS :: int where "EINPROGRESS = 115"

text \<open>The errors after which \<open>send\<close> and \<open>handle_recv\<close> close the connection.\<close>

definition connection_fatal :: "int \<Rightarrow> bool" where
  "connection_fatal err \<longleftrightarrow>
     err \<in> {ECONNRESET, ENOTCONN, ESHUTDOWN, ECONNABORTED, EPIPE, EBADF}"

definition RECONNECT_INTERVAL :: real where "RECONNECT_INTERVAL = 3"

datatype handshake_state =
  SSL_HANDSHAKE_IN_PROGRESS | SSL_HANDSHAKE_DONE | SSL_HANDSHAKE_FAILED

subsection \<open>Data\<close>

type_synonym address = "string \<times> int"
type_synonym conn_id = string

text \<open>
  A socket object: its identity, its file descriptor and whether it is an
  \<open>ssl.SSLSocket\<close> (the source asks with \<open>isinstance\<close>).
\<close>

datatype sock = Sock (sock_ident: nat) (fileno: int) (is_ssl: bool)

text \<open>\<open>ssl.wrap_socket\<close>: the wrapped socket keeps the file descriptor.\<close>

definition wrap_socket :: "sock \<Rightarrow> sock" where
  "wrap_socket sk = Sock (sock_ident sk) (fileno sk) True"

text \<open>\<open>socket.socket(...)\<close> and \<open>accept\<close> give a plain socket.\<close>

definition plain_socket :: "nat \<times> int \<Rightarrow> sock" where
  "plain_socket p = Sock (fst p) (snd p) False"

record SSLConfig =
  keyfile :: "string option"
  certfile :: "string option"
  cert_reqs :: int
  ssl_version :: int
  ca_certs :: "string option"

datatype error =
  KeyError | ValueError | TypeError | AssertionError | UnboundLocalError | SocketError int
  | GaiError

datatype 'a outcome = Returns 'a | Raises error

datatype event =
    OnConnect conn_id
  | OnDisconnect conn_id
  | OnRecv conn_id string
  | OnReadyToSend conn_id
  | SockConnect sock address
  | SockShutdown sock
  | SockClose sock
  | BellRead
  | BellClose

text \<open>
  The answers of the operating system, and the interpreter that runs the code: on
  Python 3 the name bound by \<open>except ... as err\<close> is unbound once the clause has ended.
\<close>

datatype 'a syscall = Ok 'a | Err int

datatype handshake_step =
  HandshakeOk | SSLWantRead | SSLWantWrite | SSLErrorOther | HandshakeSocketError

record os_env =
  gethostbyname :: "string \<Rightarrow> string option"
  time_time :: real
  socket_socket :: "nat \<times> int"
  bind_listen :: "unit syscall"
  connect_ex :: int
  do_handshake :: handshake_step
  shutdown :: "unit syscall"
  accept :: "((nat \<times> int) \<times> address) syscall"
  recv :: "string syscall"
  sock_send :: "nat syscall"
  python3 :: bool

text \<open>The attributes of a \<open>Link\<close> object (\<open>Link.__init__\<close>).\<close>

record link =
  reconnect_interval :: real
  do_loop :: bool
  new_conn_id :: int
  poller :: "int \<rightharpoonup> nat"
  poll_bell_r :: int
  sock_by_fd :: "(int \<times> sock) list"
  conn_by_sock :: "(sock \<times> conn_id) list"
  sock_by_conn :: "(conn_id \<times> sock) list"
  listen_socks :: "(address \<times> sock) list"
  listen_socks_filenos :: "int set"
  connectors :: "(address \<times> sock option) list"
  socks_addresses :: "(sock \<times> address) list"
  socks_waiting_to_connect :: "sock set"
  plannned_connections :: "(real \<times> address) list"
  reconnect_intervals :: "(address \<times> real) list"
  ssl_config :: "((address + sock) \<times> SSLConfig) list"
  in_ssl_handshake :: "sock set"
  trace :: "event list"

definition link_init :: "int \<Rightarrow> link" where
  "link_init bell_r =
     \<lparr>reconnect_interval = RECONNECT_INTERVAL, do_loop = False, new_conn_id = 0,
      poller = [bell_r \<mapsto> EPOLLIN], poll_bell_r = bell_r,
      sock_by_fd = [], conn_by_sock = [], sock_by_conn = [],
      listen_socks = [], listen_socks_filenos = {},
      connectors = [], socks_addresses = [], socks_waiting_to_connect = {},
      plannned_connections = [], reconnect_intervals = [],
      ssl_config = [], in_ssl_handshake = {}, trace = []\<rparr>"

subsection \<open>The readiness poller\<close>

text \<open>
  Modelled from the spec: the readiness poller (\<open>select.epoll\<close>, or \<open>snakemq.winpoll.Epoll\<close>,
  neither under src/). Section 4.1 gives \<open>register(handle, interest)\<close>,
  \<open>modify(handle, interest)\<close> and \<open>unregister(handle)\<close> on a table of handles with their
  interest; the table is keyed by the file descriptor, as the events of
  \<open>handle_fd_mask\<close> are.
\<close>

definition poller_register :: "sock \<Rightarrow> nat \<Rightarrow> link \<Rightarrow> link" where
  "poller_register sk eventmask s = s\<lparr>poller := (poller s)(fileno sk \<mapsto> eventmask)\<rparr>"

definition poller_modify :: "sock \<Rightarrow> nat \<Rightarrow> link \<Rightarrow> link" where
  "poller_modify sk eventmask s = s\<lparr>poller := (poller s)(fileno sk \<mapsto> eventmask)\<rparr>"

definition poller_unregister :: "sock \<Rightarrow> link \<Rightarrow> link" where
  "poller_unregister sk s = s\<lparr>poller := (poller s)(fileno sk := None)\<rparr>"

definition emit :: "event \<Rightarrow> link \<Rightarrow> link" where
  "emit e s = s\<lparr>trace := trace s @ [e]\<rparr>"

subsection \<open>Connection identifiers\<close>

text \<open>Python's \<open>"%i" % n\<close>: the decimal digits, after a minus sign for a negative number.\<close>

definition digit_char :: "nat \<Rightarrow> char" where
  "digit_char d = ''0123456789'' ! d"

function digits :: "nat \<Rightarrow> string" where
  "digits n = (if n < 10 then [digit_char n] else digits (n div 10) @ [digit_char (n mod 10)])"
  by pat_completeness auto
termination
  by (relation "measure id") auto

declare digits.simps [simp del]

definition str_int :: "int \<Rightarrow> string" where
  "str_int i = (if i < 0 then CHR ''-'' # digits (nat (- i)) else digits (nat i))"

definition new_connection_id :: "sock \<Rightarrow> link \<Rightarrow> conn_id \<times> link" where
  "new_connection_id sk s =
     (let n = new_conn_id s + 1;
          conn = str_int n @ ''fd'' @ str_int (fileno sk)
      in (conn, s\<lparr>new_conn_id := n,
                   conn_by_sock := AList.update sk conn (conn_by_sock s),
                   sock_by_conn := AList.update conn sk (sock_by_conn s)\<rparr>))"

definition del_connection_id :: "sock \<Rightarrow> link \<Rightarrow> unit outcome \<times> link" where
  "del_connection_id sk s =
     (case map_of (conn_by_sock s) sk of
        None \<Rightarrow> (Raises KeyError, s)
      | Some conn \<Rightarrow>
          (let s1 = s\<lparr>conn_by_sock := AList.delete sk (conn_by_sock s)\<rparr>
           in if map_of (sock_by_conn s1) conn = None then (Raises KeyError, s1)
              else (Returns (), s1\<lparr>sock_by_conn := AList.delete conn (sock_by_conn s1)\<rparr>)))"

subsection \<open>The plan of connections\<close>

text \<open>
  \<open>bisect.bisect\<close> of the standard library (\<open>bisect_right\<close>): the binary search, with
  \<open>lo = 0\<close> and \<open>hi = len(a)\<close>.
\<close>

function bisect_right :: "'a::linorder list \<Rightarrow> 'a \<Rightarrow> nat \<Rightarrow> nat \<Rightarrow> nat" where
  "bisect_right a x lo hi =
     (if lo < hi
      then (let mid = (lo + hi) div 2
            in if x < a ! mid then bisect_right a x lo mid
               else bisect_right a x (mid + 1) hi)
      else lo)"
  by pat_completeness auto
termination
  by (relation "measure (\<lambda>(a, x, lo, hi). hi - lo)") auto

declare bisect_right.simps [simp del]

definition bisect :: "'a::linorder list \<Rightarrow> 'a \<Rightarrow> nat" where
  "bisect a x = bisect_right a x 0 (length a)"

definition list_insert :: "nat \<Rightarrow> 'a \<Rightarrow> 'a list \<Rightarrow> 'a list" where
  "list_insert idx x xs = take idx xs @ x # drop idx xs"

definition plan_connect :: "real \<Rightarrow> address \<Rightarrow> link \<Rightarrow> link" where
  "plan_connect when addr s =
     (let item = (when, addr);
          idx = bisect (plannned_connections s) item
      in s\<lparr>plannned_connections := list_insert idx item (plannned_connections s)\<rparr>)"


subsection \<open>Exceptions\<close>

text \<open>
  An exception raised by a call leaves the caller at once, with the state as it is;
  \<open>and_then\<close> is the sequencing of two statements.
\<close>

definition and_then ::
  "'a outcome \<times> link \<Rightarrow> ('a \<Rightarrow> link \<Rightarrow> 'b outcome \<times> link) \<Rightarrow> 'b outcome \<times> link" where
  "and_then r f = (case r of (Returns x, s) \<Rightarrow> f x s | (Raises e, s) \<Rightarrow> (Raises e, s))"

text \<open>A \<open>for\<close> loop over a snapshot (\<open>list(...)\<close>) of a collection.\<close>

primrec for_each ::
  "('a \<Rightarrow> link \<Rightarrow> unit outcome \<times> link) \<Rightarrow> 'a list \<Rightarrow> link \<Rightarrow> unit outcome \<times> link" where
  "for_each f [] s = (Returns (), s)"
| "for_each f (x # xs) s = and_then (f x s) (\<lambda>_. for_each f xs)"

subsection \<open>Connectors and listeners\<close>

definition add_connector ::
  "os_env \<Rightarrow> address \<Rightarrow> real option \<Rightarrow> SSLConfig option \<Rightarrow> link \<Rightarrow> address outcome \<times> link" where
  "add_connector env addr interval cfg s =
     (case gethostbyname env (fst addr) of
        None \<Rightarrow> (Raises GaiError, s)
      | Some host \<Rightarrow>
          (let address = (host, snd addr);
               s1 = (case cfg of
                       None \<Rightarrow> s
                     | Some c \<Rightarrow> s\<lparr>ssl_config := AList.update (Inl address) c (ssl_config s)\<rparr>)
           in if map_of (connectors s1) address \<noteq> None then (Raises ValueError, s1)
              else
                (let s2 = s1\<lparr>connectors := AList.update address None (connectors s1)\<rparr>;
                     s3 = s2\<lparr>reconnect_intervals :=
                            AList.update address
                              (case interval of
                                 None \<Rightarrow> reconnect_interval s2
                               | Some i \<Rightarrow> if i \<noteq> 0 then i else reconnect_interval s2)
                              (reconnect_intervals s2)\<rparr>
                 in (Returns address, plan_connect 0 address s3))))"

definition del_connector :: "address \<Rightarrow> link \<Rightarrow> unit outcome \<times> link" where
  "del_connector addr s =
     (case map_of (connectors s) addr of
        None \<Rightarrow> (Raises KeyError, s)
      | Some sk \<Rightarrow>
          (let s1 = s\<lparr>connectors := AList.delete addr (connectors s)\<rparr>;
               s2 = s1\<lparr>socks_waiting_to_connect :=
                      (case sk of
                         None \<Rightarrow> socks_waiting_to_connect s1
                       | Some k \<Rightarrow> socks_waiting_to_connect s1 - {k})\<rparr>
           in if map_of (reconnect_intervals s2) addr = None then (Raises KeyError, s2)
              else
                (let s3 = s2\<lparr>reconnect_intervals := AList.delete addr (reconnect_intervals s2)\<rparr>;
                     s4 = (if map_of (ssl_config s3) (Inl addr) \<noteq> None
                           then s3\<lparr>ssl_config := AList.delete (Inl addr) (ssl_config s3)\<rparr>
                           else s3)
                 in (Returns (),
                     s4\<lparr>plannned_connections :=
                          filter (\<lambda>(when, a). a \<noteq> addr) (plannned_connections s4)\<rparr>))))"

text \<open>
  In \<open>add_listener\<close> the message of the \<open>ValueError\<close> of line 212 is formatted with
  \<open>%\<close> from the address, a pair, for the one \<open>%r\<close>: the formatting raises \<open>TypeError\<close>,
  and that is the exception a duplicate address gets.
\<close>

definition add_listener ::
  "os_env \<Rightarrow> address \<Rightarrow> SSLConfig option \<Rightarrow> link \<Rightarrow> address outcome \<times> link" where
  "add_listener env addr cfg s =
     (case gethostbyname env (fst addr) of
        None \<Rightarrow> (Raises GaiError, s)
      | Some host \<Rightarrow>
          (let address = (host, snd addr)
           in if map_of (listen_socks s) address \<noteq> None then (Raises TypeError, s)
              else
                (let listen_sock = plain_socket (socket_socket env);
                     fd = fileno listen_sock
                 in case bind_listen env of
                      Err e \<Rightarrow> (Raises (SocketError e), s)
                    | Ok _ \<Rightarrow>
                        (let s1 = (case cfg of
                                     None \<Rightarrow> s
                                   | Some c \<Rightarrow>
                                       s\<lparr>ssl_config :=
                                           AList.update (Inr listen_sock) c (ssl_config s)\<rparr>);
                             s2 = s1\<lparr>sock_by_fd := AList.update fd listen_sock (sock_by_fd s1),
                                     listen_socks :=
                                       AList.update address listen_sock (listen_socks s1),
                                     listen_socks_filenos := insert fd (listen_socks_filenos s1)\<rparr>
                         in (Returns address, poller_register listen_sock EPOLLIN s2)))))"

definition del_listener :: "address \<Rightarrow> link \<Rightarrow> unit outcome \<times> link" where
  "del_listener addr s =
     (case map_of (listen_socks s) addr of
        None \<Rightarrow> (Raises KeyError, s)
      | Some sk \<Rightarrow>
          (let s1 = s\<lparr>listen_socks := AList.delete addr (listen_socks s)\<rparr>;
               fd = fileno sk
           in if fd \<notin> listen_socks_filenos s1 then (Raises KeyError, s1)
              else
                (let s2 = s1\<lparr>listen_socks_filenos := listen_socks_filenos s1 - {fd}\<rparr>
                 in if map_of (sock_by_fd s2) fd = None then (Raises KeyError, s2)
                    else
                      (let s3 = s2\<lparr>sock_by_fd := AList.delete fd (sock_by_fd s2)\<rparr>;
                           s4 = (if map_of (ssl_config s3) (Inr sk) \<noteq> None
                                 then s3\<lparr>ssl_config := AList.delete (Inr sk) (ssl_config s3)\<rparr>
                                 else s3)
                       in (Returns (), emit (SockClose sk) s4)))))"

subsection \<open>Closing\<close>

text \<open>
  \<open>handle_close\<close>, lines 517 to 539. The shutdown may fail: every error but
  \<open>ENOTCONN\<close> is raised again, after the socket has left the poller and the socket table.
\<close>

definition handle_close :: "os_env \<Rightarrow> sock \<Rightarrow> link \<Rightarrow> unit outcome \<times> link" where
  "handle_close env sk s =
     (let s1 = poller_unregister sk s
      in if map_of (sock_by_fd s1) (fileno sk) = None then (Raises KeyError, s1)
         else
           (let s2 = emit (SockShutdown sk)
                       (s1\<lparr>sock_by_fd := AList.delete (fileno sk) (sock_by_fd s1)\<rparr>)
            in and_then
                 (case shutdown env of
                    Ok _ \<Rightarrow> (Returns (), s2)
                  | Err e \<Rightarrow> if e \<noteq> ENOTCONN then (Raises (SocketError e), s2)
                             else (Returns (), s2))
                 (\<lambda>_ s3.
                    and_then
                      (let s4 = emit (SockClose sk) s3
                       in case map_of (conn_by_sock s4) sk of
                            None \<Rightarrow> (Returns (), s4)
                          | Some conn \<Rightarrow>
                              and_then (del_connection_id sk s4)
                                (\<lambda>_ s5.
                                   (Returns (),
                                    if \<not> is_ssl sk \<or> sk \<notin> in_ssl_handshake s5
                                    then emit (OnDisconnect conn) s5 else s5)))
                      (\<lambda>_ s6.
                         case map_of (socks_addresses s6) sk of
                           None \<Rightarrow> (Returns (), s6)
                         | Some address \<Rightarrow>
                             (let s7 = s6\<lparr>socks_addresses :=
                                            AList.delete sk (socks_addresses s6)\<rparr>
                              in case map_of (reconnect_intervals s7) address of
                                   None \<Rightarrow> (Returns (), s7)
                                 | Some interval \<Rightarrow>
                                     if interval \<noteq> 0
                                     then (Returns (),
                                           plan_connect (time_time env + interval) address s7)
                                     else (Returns (), s7))))))"

definition handle_conn_refused :: "os_env \<Rightarrow> sock \<Rightarrow> link \<Rightarrow> unit outcome \<times> link" where
  "handle_conn_refused env sk s =
     (if sk \<notin> socks_waiting_to_connect s then (Raises KeyError, s)
      else
        (let s1 = poller_unregister sk
                    (s\<lparr>socks_waiting_to_connect := socks_waiting_to_connect s - {sk}\<rparr>)
         in if map_of (sock_by_fd s1) (fileno sk) = None then (Raises KeyError, s1)
            else
              (let s2 = emit (SockClose sk)
                          (s1\<lparr>sock_by_fd := AList.delete (fileno sk) (sock_by_fd s1)\<rparr>)
               in case map_of (socks_addresses s2) sk of
                    None \<Rightarrow> (Raises KeyError, s2)
                  | Some address \<Rightarrow>
                      (let s3 = s2\<lparr>socks_addresses := AList.delete sk (socks_addresses s2)\<rparr>
                       in case map_of (reconnect_intervals s3) address of
                            None \<Rightarrow> (Raises KeyError, s3)
                          | Some interval \<Rightarrow>
                              (Returns (),
                               plan_connect (time_time env + interval) address s3)))))"

definition close :: "os_env \<Rightarrow> conn_id \<Rightarrow> link \<Rightarrow> unit outcome \<times> link" where
  "close env conn s =
     (case map_of (sock_by_conn s) conn of
        None \<Rightarrow> (Raises KeyError, s)
      | Some sk \<Rightarrow> handle_close env sk s)"

subsection \<open>Sending\<close>

definition send :: "os_env \<Rightarrow> conn_id \<Rightarrow> string \<Rightarrow> link \<Rightarrow> nat outcome \<times> link" where
  "send env conn data s =
     (case map_of (sock_by_conn s) conn of
        None \<Rightarrow> (Raises KeyError, s)
      | Some sk \<Rightarrow>
          (case sock_send env of
             Ok sent_length \<Rightarrow> (Returns sent_length, poller_modify sk (EPOLLIN OR EPOLLOUT) s)
           | Err err \<Rightarrow>
               if err = EWOULDBLOCK then (Returns 0, s)
               else if connection_fatal err
               then and_then (handle_close env sk s) (\<lambda>_ s1. (Returns 0, s1))
               else (Raises (SocketError err), s)))"

definition handle_ready_to_send :: "sock \<Rightarrow> link \<Rightarrow> unit outcome \<times> link" where
  "handle_ready_to_send sk s =
     (let s1 = poller_modify sk EPOLLIN s
      in case map_of (conn_by_sock s1) sk of
           None \<Rightarrow> (Raises KeyError, s1)
         | Some conn \<Rightarrow> (Returns (), emit (OnReadyToSend conn) s1))"

subsection \<open>The TLS handshake, connecting and accepting\<close>

text \<open>
  \<open>ssl_handshake\<close>, lines 392 to 419. When the handshake fails, line 415 formats the log
  message from \<open>err\<close> before it calls \<open>handle_close\<close>. On Python 2 the name still holds the
  exception; on Python 3 it is unbound by then and the line raises \<open>UnboundLocalError\<close>,
  so the socket is not closed.
\<close>

definition ssl_handshake ::
  "os_env \<Rightarrow> sock \<Rightarrow> link \<Rightarrow> handshake_state outcome \<times> link" where
  "ssl_handshake env sk s =
     (case do_handshake env of
        HandshakeOk \<Rightarrow>
          if sk \<notin> in_ssl_handshake s then (Raises KeyError, s)
          else (Returns SSL_HANDSHAKE_DONE,
                poller_modify sk EPOLLIN (s\<lparr>in_ssl_handshake := in_ssl_handshake s - {sk}\<rparr>))
      | SSLWantRead \<Rightarrow> (Returns SSL_HANDSHAKE_IN_PROGRESS, poller_modify sk EPOLLIN s)
      | SSLWantWrite \<Rightarrow> (Returns SSL_HANDSHAKE_IN_PROGRESS, poller_modify sk EPOLLOUT s)
      | SSLErrorOther \<Rightarrow>
          if python3 env then (Raises UnboundLocalError, s)
          else and_then (handle_close env sk s) (\<lambda>_ s1. (Returns SSL_HANDSHAKE_FAILED, s1))
      | HandshakeSocketError \<Rightarrow>
          if python3 env then (Raises UnboundLocalError, s)
          else and_then (handle_close env sk s) (\<lambda>_ s1. (Returns SSL_HANDSHAKE_FAILED, s1)))"

definition handle_connect :: "os_env \<Rightarrow> sock \<Rightarrow> link \<Rightarrow> unit outcome \<times> link" where
  "handle_connect env sk s =
     (if sk \<notin> socks_waiting_to_connect s then (Raises KeyError, s)
      else
        (let s1 = s\<lparr>socks_waiting_to_connect := socks_waiting_to_connect s - {sk}\<rparr>
         in and_then
              (if is_ssl sk
               then ssl_handshake env sk (s1\<lparr>in_ssl_handshake := insert sk (in_ssl_handshake s1)\<rparr>)
               else (Returns SSL_HANDSHAKE_IN_PROGRESS, s1))
              (\<lambda>handshake_res s2.
                 if is_ssl sk \<and> handshake_res = SSL_HANDSHAKE_FAILED then (Returns (), s2)
                 else
                   (let (conn, s3) = new_connection_id sk s2;
                        s4 = poller_modify sk EPOLLIN s3
                    in (Returns (),
                        if \<not> is_ssl sk \<or> handshake_res = SSL_HANDSHAKE_DONE
                        then emit (OnConnect conn) s4 else s4)))))"

text \<open>\<open>_connect\<close>; \<open>poller.register(sock)\<close> takes the default interest of \<open>epoll\<close>.\<close>

definition connect :: "os_env \<Rightarrow> address \<Rightarrow> link \<Rightarrow> unit outcome \<times> link" where
  "connect env address s =
     (let plain = plain_socket (socket_socket env);
          sk = (case map_of (ssl_config s) (Inl address) of
                  None \<Rightarrow> plain
                | Some c \<Rightarrow> wrap_socket plain);
          s1 = poller_register sk (EPOLLIN OR EPOLLPRI OR EPOLLOUT) s;
          s2 = s1\<lparr>sock_by_fd := AList.update (fileno sk) sk (sock_by_fd s1),
                  connectors := AList.update address (Some sk) (connectors s1),
                  socks_addresses := AList.update sk address (socks_addresses s1),
                  socks_waiting_to_connect := insert sk (socks_waiting_to_connect s1)\<rparr>;
          s3 = emit (SockConnect sk address) s2;
          err = connect_ex env
      in if err = 0 \<or> err = EISCONN then handle_connect env sk s3
         else if err \<noteq> EINPROGRESS \<and> err \<noteq> EWOULDBLOCK then (Raises (SocketError err), s3)
         else (Returns (), s3))"

definition handle_accept :: "os_env \<Rightarrow> sock \<Rightarrow> link \<Rightarrow> unit outcome \<times> link" where
  "handle_accept env sk s =
     (case accept env of
        Err e \<Rightarrow> (Returns (), s)
      | Ok (new, address) \<Rightarrow>
          (let plain = plain_socket new;
               cfg = map_of (ssl_config s) (Inr sk)
           in and_then
                (case cfg of
                   Some c \<Rightarrow>
                     (let newsock = wrap_socket plain;
                          s1 = poller_register newsock EPOLLIN s;
                          s2 = s1\<lparr>in_ssl_handshake := insert newsock (in_ssl_handshake s1)\<rparr>;
                          s3 = s2\<lparr>sock_by_fd :=
                                    AList.update (fileno newsock) newsock (sock_by_fd s2)\<rparr>
                      in and_then (ssl_handshake env newsock s3)
                           (\<lambda>handshake_res s4. (Returns (newsock, handshake_res), s4)))
                 | None \<Rightarrow>
                     (let s1 = poller_register plain EPOLLIN s
                      in (Returns (plain, SSL_HANDSHAKE_IN_PROGRESS),
                          s1\<lparr>sock_by_fd :=
                               AList.update (fileno plain) plain (sock_by_fd s1)\<rparr>)))
                (\<lambda>(newsock, handshake_res) s5.
                   if cfg \<noteq> None \<and> handshake_res = SSL_HANDSHAKE_FAILED then (Returns (), s5)
                   else
                     (let (conn, s6) = new_connection_id newsock s5
                      in (Returns (),
                          if cfg = None \<or> handshake_res = SSL_HANDSHAKE_DONE
                          then emit (OnConnect conn) s6 else s6)))))"

subsection \<open>Receiving\<close>

text \<open>
  The \<open>except socket.error\<close> clause of \<open>handle_recv\<close>, lines 492 to 501. The \<open>try\<close>
  block holds the call of \<open>handle_close\<close> as well, so a socket error raised by the
  shutdown there arrives in this clause too.
\<close>

definition recv_except :: "os_env \<Rightarrow> sock \<Rightarrow> int \<Rightarrow> link \<Rightarrow> unit outcome \<times> link" where
  "recv_except env sk err s =
     (if connection_fatal err then handle_close env sk s
      else if err \<noteq> EWOULDBLOCK then (Raises (SocketError err), s)
      else (Returns (), s))"

definition handle_recv :: "os_env \<Rightarrow> sock \<Rightarrow> link \<Rightarrow> unit outcome \<times> link" where
  "handle_recv env sk s =
     (case map_of (conn_by_sock s) sk of
        None \<Rightarrow> (Raises KeyError, s)
      | Some conn \<Rightarrow>
          (case recv env of
             Ok fragment \<Rightarrow>
               if fragment \<noteq> [] then (Returns (), emit (OnRecv conn fragment) s)
               else
                 (case handle_close env sk s of
                    (Raises (SocketError err), s1) \<Rightarrow> recv_except env sk err s1
                  | (Raises e, s1) \<Rightarrow> (Raises e, s1)
                  | (Returns x, s1) \<Rightarrow> (Returns x, s1))
           | Err err \<Rightarrow> recv_except env sk err s))"

subsection \<open>Dispatching the events of the poller\<close>

definition handle_sock_err :: "os_env \<Rightarrow> sock \<Rightarrow> link \<Rightarrow> unit outcome \<times> link" where
  "handle_sock_err env sk s =
     (if sk \<in> socks_waiting_to_connect s then handle_conn_refused env sk s
      else handle_close env sk s)"

definition handle_sock_io ::
  "os_env \<Rightarrow> int \<Rightarrow> sock \<Rightarrow> nat \<Rightarrow> link \<Rightarrow> unit outcome \<times> link" where
  "handle_sock_io env fd sk eventmask s =
     and_then
       (if eventmask AND EPOLLOUT \<noteq> 0
        then (if sk \<in> socks_waiting_to_connect s then handle_connect env sk s
              else handle_ready_to_send sk s)
        else (Returns (), s))
       (\<lambda>_ s1.
          if eventmask AND EPOLLIN \<noteq> 0
          then (if fd \<in> listen_socks_filenos s1 then handle_accept env sk s1
                else handle_recv env sk s1)
          else (Returns (), s1))"

definition handle_fd_mask :: "os_env \<Rightarrow> int \<Rightarrow> nat \<Rightarrow> link \<Rightarrow> unit outcome \<times> link" where
  "handle_fd_mask env fd eventmask s =
     (if fd = poll_bell_r s
      then (if eventmask AND EPOLLIN \<noteq> 0 then (Returns (), emit BellRead s)
            else (Raises AssertionError, s))
      else
        (case map_of (sock_by_fd s) fd of
           None \<Rightarrow> (Returns (), s)
         | Some sk \<Rightarrow>
             if eventmask AND (EPOLLERR OR EPOLLHUP) \<noteq> 0 then handle_sock_err env sk s
             else if sk \<in> in_ssl_handshake s
             then and_then (ssl_handshake env sk s)
                    (\<lambda>handshake_res s1.
                       if handshake_res = SSL_HANDSHAKE_DONE
                       then (case map_of (conn_by_sock s1) sk of
                               None \<Rightarrow> (Raises KeyError, s1)
                             | Some conn \<Rightarrow> (Returns (), emit (OnConnect conn) s1))
                       else (Returns (), s1))
             else handle_sock_io env fd sk eventmask s))"

subsection \<open>Dealing the planned connections\<close>

text \<open>
  \<open>deal_connects\<close>, lines 614 to 626. The \<open>for\<close> loop of Python reads the list by
  index, and \<open>_connect\<close> may insert into the list while the loop runs (a TLS connection
  that is established at once and whose handshake fails is closed and planned again), so
  the loop is over the index \<open>i\<close>, which is also the value of \<open>to_remove\<close>. The loop need
  not end: the result \<open>None\<close> is a loop that runs forever. An exception leaves the method
  before the processed entries are deleted. The environment \<open>envs i\<close> answers the
  system calls of the attempt number \<open>i\<close>.
\<close>

definition deal_finish :: "nat \<Rightarrow> link \<Rightarrow> link" where
  "deal_finish to_remove s =
     (if to_remove \<noteq> 0
      then s\<lparr>plannned_connections := drop to_remove (plannned_connections s)\<rparr>
      else s)"

partial_function (option) deal_loop ::
  "real \<Rightarrow> (nat \<Rightarrow> os_env) \<Rightarrow> nat \<Rightarrow> link \<Rightarrow> (unit outcome \<times> link) option" where
  "deal_loop now envs i s =
     (if i < length (plannned_connections s)
      then (case plannned_connections s ! i of
              (when, address) \<Rightarrow>
                (case map_of (reconnect_intervals s) address of
                   None \<Rightarrow> Some (Raises KeyError, s)
                 | Some interval \<Rightarrow>
                     if when \<le> now \<or> when > now + interval * 2
                     then (case connect (envs i) address s of
                             (Raises e, s1) \<Rightarrow> Some (Raises e, s1)
                           | (Returns _, s1) \<Rightarrow> deal_loop now envs (i + 1) s1)
                     else Some (Returns (), deal_finish i s)))
      else Some (Returns (), deal_finish i s))"

definition deal_connects ::
  "real \<Rightarrow> (nat \<Rightarrow> os_env) \<Rightarrow> link \<Rightarrow> (unit outcome \<times> link) option" where
  "deal_connects now envs s = deal_loop now envs 0 s"

subsection \<open>Cleaning up\<close>

text \<open>The twelve assertions at the end of \<open>cleanup\<close>, lines 149 to 160.\<close>

definition registries_empty :: "link \<Rightarrow> bool" where
  "registries_empty s \<longleftrightarrow>
     sock_by_fd s = [] \<and> conn_by_sock s = [] \<and> sock_by_conn s = [] \<and>
     listen_socks s = [] \<and> listen_socks_filenos s = {} \<and> connectors s = [] \<and>
     socks_addresses s = [] \<and> socks_waiting_to_connect s = {} \<and>
     plannned_connections s = [] \<and> reconnect_intervals s = [] \<and>
     ssl_config s = [] \<and> in_ssl_handshake s = {}"

text \<open>\<open>envs sk\<close> answers the system calls made while the socket \<open>sk\<close> is closed.\<close>

definition cleanup :: "(sock \<Rightarrow> os_env) \<Rightarrow> link \<Rightarrow> unit outcome \<times> link" where
  "cleanup envs s =
     (if do_loop s then (Raises AssertionError, s)
      else
        (let s1 = emit BellClose s
         in and_then (for_each del_connector (map fst (connectors s1)) s1)
              (\<lambda>_ s2.
                 and_then (for_each del_listener (map fst (listen_socks s2)) s2)
                   (\<lambda>_ s3.
                      and_then
                        (for_each (\<lambda>sk. handle_close (envs sk) sk) (map snd (sock_by_fd s3)) s3)
                        (\<lambda>_ s4.
                           if registries_empty s4 then (Returns (), s4)
                           else (Raises AssertionError, s4))))))"

subsection \<open>The loop flag\<close>

text \<open>\<open>stop\<close>, and the first statement of \<open>loop\<close>, which raises the flag.\<close>

definition stop :: "link \<Rightarrow> link" where
  "stop s = s\<lparr>do_loop := False\<rparr>"

definition loop_enter :: "link \<Rightarrow> link" where
  "loop_enter s = s\<lparr>do_loop := True\<rparr>"

subsection \<open>Sequences of operations\<close>

text \<open>
  One call of a method of the \<open>Link\<close>, with any arguments and any answers of the operating
  system, whether it returns or raises. The passes of \<open>loop\<close> are sequences of
  \<open>handle_fd_mask\<close> and \<open>deal_connects\<close>.
\<close>

inductive link_step :: "link \<Rightarrow> link \<Rightarrow> bool" where
  step_add_connector: "link_step s (snd (add_connector env addr interval cfg s))"
| step_del_connector: "link_step s (snd (del_connector addr s))"
| step_add_listener: "link_step s (snd (add_listener env addr cfg s))"
| step_del_listener: "link_step s (snd (del_listener addr s))"
| step_send: "link_step s (snd (send env conn data s))"
| step_close: "link_step s (snd (close env conn s))"
| step_stop: "link_step s (stop s)"
| step_loop_enter: "link_step s (loop_enter s)"
| step_new_connection_id: "link_step s (snd (new_connection_id sk s))"
| step_del_connection_id: "link_step s (snd (del_connection_id sk s))"
| step_plan_connect: "link_step s (plan_connect when addr s)"
| step_connect: "link_step s (snd (connect env addr s))"
| step_ssl_handshake: "link_step s (snd (ssl_handshake env sk s))"
| step_handle_connect: "link_step s (snd (handle_connect env sk s))"
| step_handle_accept: "link_step s (snd (handle_accept env sk s))"
| step_handle_recv: "link_step s (snd (handle_recv env sk s))"
| step_handle_conn_refused: "link_step s (snd (handle_conn_refused env sk s))"
| step_handle_close: "link_step s (snd (handle_close env sk s))"
| step_handle_ready_to_send: "link_step s (snd (handle_ready_to_send sk s))"
| step_handle_sock_err: "link_step s (snd (handle_sock_err env sk s))"
| step_handle_sock_io: "link_step s (snd (handle_sock_io env fd sk eventmask s))"
| step_handle_fd_mask: "link_step s (snd (handle_fd_mask env fd eventmask s))"
| step_deal_connects: "deal_connects now envs s = Some r \<Longrightarrow> link_step s (snd r)"
| step_cleanup: "link_step s (snd (cleanup cenvs s))"

text \<open>The states of a \<open>Link\<close> object: those that calls of its methods reach from \<open>__init__\<close>.\<close>

definition reachable :: "link \<Rightarrow> bool" where
  "reachable s \<longleftrightarrow> (\<exists>bell_r. link_step\<^sup>*\<^sup>* (link_init bell_r) s)"

subsection \<open>Predicates of the statements\<close>

text \<open>The test of line 619, on an entry of the plan.\<close>

definition due_entry :: "link \<Rightarrow> real \<Rightarrow> real \<times> address \<Rightarrow> bool" where
  "due_entry s now e \<longleftrightarrow>
     (case map_of (reconnect_intervals s) (snd e) of
        None \<Rightarrow> False
      | Some interval \<Rightarrow> fst e \<le> now \<or> fst e > now + interval * 2)"

text \<open>The specification's reading: an entry is due when its due time has elapsed.\<close>

definition elapsed :: "real \<Rightarrow> real \<times> address \<Rightarrow> bool" where
  "elapsed now e \<longleftrightarrow> fst e \<le> now"

text \<open>The addresses of the connection attempts in a trace, in order.\<close>

fun connect_attempts :: "event list \<Rightarrow> address list" where
  "connect_attempts [] = []"
| "connect_attempts (SockConnect sk a # es) = a # connect_attempts es"
| "connect_attempts (e # es) = connect_attempts es"

text \<open>
  An attempt that does not fail: the connection is in progress, or it is established at
  once and the TLS handshake, if there is one, does not fail.
\<close>

definition attempt_not_failing :: "os_env \<Rightarrow> bool" where
  "attempt_not_failing env \<longleftrightarrow>
     connect_ex env = EINPROGRESS \<or> connect_ex env = EWOULDBLOCK \<or>
     ((connect_ex env = 0 \<or> connect_ex env = EISCONN) \<and>
      (do_handshake env = HandshakeOk \<or> do_handshake env = SSLWantRead \<or>
       do_handshake env = SSLWantWrite))"

text \<open>The close handling completes: the shutdown succeeds or reports \<open>ENOTCONN\<close>.\<close>

definition shutdown_completes :: "os_env \<Rightarrow> bool" where
  "shutdown_completes env \<longleftrightarrow> shutdown env = Ok () \<or> shutdown env = Err ENOTCONN"

subsection \<open>Concrete states and environments\<close>

text \<open>
  An operating system in which nothing is ready: connections are in progress, reads and
  writes would block, the handshake wants to read. The socket number \<open>k\<close> has the file
  descriptor \<open>k + 5\<close>.
\<close>

definition env_pending :: "nat \<Rightarrow> os_env" where
  "env_pending k =
     \<lparr>gethostbyname = Some, time_time = 10, socket_socket = (k, int k + 5),
      bind_listen = Ok (), connect_ex = EINPROGRESS, do_handshake = SSLWantRead,
      shutdown = Ok (), accept = Err EWOULDBLOCK, recv = Err EWOULDBLOCK,
      sock_send = Err EWOULDBLOCK, python3 = False\<rparr>"

definition addr_a :: address where
  "addr_a = (''10.0.0.1'', 4000)"

definition tls_config :: SSLConfig where
  "tls_config = \<lparr>keyfile = None, certfile = None, cert_reqs = 0, ssl_version = 2, ca_certs = None\<rparr>"

text \<open>A link with one connector, without a TLS configuration, before the loop starts.\<close>

definition link_one_connector :: link where
  "link_one_connector = snd (add_connector (env_pending 0) addr_a None None (link_init 3))"

text \<open>The link with one connector, with a second planned entry.\<close>

definition link_two_entries :: link where
  "link_two_entries = link_one_connector\<lparr>plannned_connections := [(0, addr_a), (99, addr_a)]\<rparr>"

text \<open>
  The link with one connector after \<open>deal_connects\<close> has started the connection, and
  after the poller has reported the socket writable and \<open>handle_connect\<close> has given it the
  connection identifier \<open>1fd5\<close>.
\<close>

definition sock_a :: sock where
  "sock_a = Sock 0 5 False"

definition link_connecting :: link where
  "link_connecting =
     link_one_connector
       \<lparr>poller := [3 \<mapsto> EPOLLIN, 5 \<mapsto> 7],
        sock_by_fd := [(5, sock_a)],
        connectors := [(addr_a, Some sock_a)],
        socks_addresses := [(sock_a, addr_a)],
        socks_waiting_to_connect := {sock_a},
        plannned_connections := [],
        trace := [SockConnect sock_a addr_a]\<rparr>"

definition link_connected :: link where
  "link_connected =
     link_connecting
       \<lparr>new_conn_id := 1,
        poller := [3 \<mapsto> EPOLLIN, 5 \<mapsto> EPOLLIN],
        conn_by_sock := [(sock_a, ''1fd5'')],
        sock_by_conn := [(''1fd5'', sock_a)],
        socks_waiting_to_connect := {},
        trace := [SockConnect sock_a addr_a, OnConnect ''1fd5'']\<rparr>"

text \<open>
  The connecting link after the poller has reported an error on the socket at the time 10:
  the connection was refused and the next attempt is planned for the time 13. Then the
  link after \<open>deal_connects\<close> has run at the time 0, the clock having been set back.
\<close>

definition env_later :: "nat \<Rightarrow> os_env" where
  "env_later k = env_pending (Suc k)"

definition link_refused :: link where
  "link_refused =
     link_connecting
       \<lparr>poller := [3 \<mapsto> EPOLLIN],
        sock_by_fd := [],
        socks_addresses := [],
        socks_waiting_to_connect := {},
        plannned_connections := [(13, addr_a)],
        trace := [SockConnect sock_a addr_a, SockClose sock_a]\<rparr>"

definition link_refused_dealt :: link where
  "link_refused_dealt =
     link_refused
       \<lparr>poller := [3 \<mapsto> EPOLLIN, 6 \<mapsto> 7],
        sock_by_fd := [(6, Sock 1 6 False)],
        connectors := [(addr_a, Some (Sock 1 6 False))],
        socks_addresses := [(Sock 1 6 False, addr_a)],
        socks_waiting_to_connect := {Sock 1 6 False},
        plannned_connections := [],
        trace := [SockConnect sock_a addr_a, SockClose sock_a,
                  SockConnect (Sock 1 6 False) addr_a]\<rparr>"

text \<open>
  What every operation keeps: the counter of connection identifiers does not decrease,
  and a sorted plan stays sorted.
\<close>

definition keeps :: "link \<Rightarrow> link \<Rightarrow> bool" where
  "keeps s s' \<longleftrightarrow>
     new_conn_id s \<le> new_conn_id s' \<and>
     (sorted (plannned_connections s) \<longrightarrow> sorted (plannned_connections s'))"

text \<open>
  A link whose connector has a TLS configuration, after the connection was established
  and the first handshake step asked for more data: the socket has its connection
  identifier and is in the handshake set. The loop is not running.
\<close>

definition sock_tls :: sock where
  "sock_tls = Sock 0 5 True"

definition link_tls_handshaking :: link where
  "link_tls_handshaking =
     \<lparr>reconnect_interval = 3, do_loop = False, new_conn_id = 1,
      poller = [3 \<mapsto> EPOLLIN, 5 \<mapsto> EPOLLIN], poll_bell_r = 3,
      sock_by_fd = [(5, sock_tls)], conn_by_sock = [(sock_tls, ''1fd5'')],
      sock_by_conn = [(''1fd5'', sock_tls)],
      listen_socks = [], listen_socks_filenos = {},
      connectors = [(addr_a, Some sock_tls)], socks_addresses = [(sock_tls, addr_a)],
      socks_waiting_to_connect = {},
      plannned_connections = [], reconnect_intervals = [(addr_a, 3)],
      ssl_config = [(Inl addr_a, tls_config)], in_ssl_handshake = {sock_tls},
      trace = [SockConnect sock_tls addr_a]\<rparr>"

text \<open>The answers of the operating system while \<open>cleanup\<close> closes a socket.\<close>

definition env_closing :: "sock \<Rightarrow> os_env" where
  "env_closing sk = env_pending (sock_ident sk)"

text \<open>The two states before it: after \<open>add_connector\<close>, and after \<open>deal_connects\<close>.\<close>

definition link_tls_connector :: link where
  "link_tls_connector =
     (link_init 3)\<lparr>connectors := [(addr_a, None)], reconnect_intervals := [(addr_a, 3)],
                   plannned_connections := [(0, addr_a)],
                   ssl_config := [(Inl addr_a, tls_config)]\<rparr>"

definition link_tls_connecting :: link where
  "link_tls_connecting =
     link_tls_connector
       \<lparr>poller := [3 \<mapsto> EPOLLIN, 5 \<mapsto> 7],
        sock_by_fd := [(5, sock_tls)],
        connectors := [(addr_a, Some sock_tls)],
        socks_addresses := [(sock_tls, addr_a)],
        socks_waiting_to_connect := {sock_tls},
        plannned_connections := [],
        trace := [SockConnect sock_tls addr_a]\<rparr>"

section \<open>Proofs\<close>

lemmas epoll_defs = EPOLLIN_def EPOLLPRI_def EPOLLOUT_def EPOLLERR_def EPOLLHUP_def

lemmas errno_defs = EBADF_def EWOULDBLOCK_def EPIPE_def ECONNABORTED_def ECONNRESET_def
  EISCONN_def ENOTCONN_def ESHUTDOWN_def EINPROGRESS_def

subsection \<open>Events for descriptors that have left the socket table\<close>

text \<open>
  C10. A readiness event whose descriptor is not the read end of the wakeup bell and is
  not in the socket table: \<open>handle_fd_mask\<close> returns, raises nothing, calls no handler
  and no callback (the trace is the same) and leaves the whole state as it was.
\<close>

theorem handle_fd_mask_discarded_socket:
  assumes "fd \<noteq> poll_bell_r s" and "map_of (sock_by_fd s) fd = None"
  shows "handle_fd_mask env fd eventmask s = (Returns (), s)"
  using assms by (simp add: handle_fd_mask_def)

theorem handle_fd_mask_discarded_socket_witness:
  "7 \<noteq> poll_bell_r (link_init 3) \<and> map_of (sock_by_fd (link_init 3)) 7 = None \<and>
   handle_fd_mask (env_pending 0) 7 (EPOLLIN OR EPOLLOUT) (link_init 3) = (Returns (), link_init 3)"
proof -
  have 1: "7 \<noteq> poll_bell_r (link_init 3)" by (simp add: link_init_def)
  have 2: "map_of (sock_by_fd (link_init 3)) 7 = None" by (simp add: link_init_def)
  show ?thesis
    using 1 2 handle_fd_mask_discarded_socket [OF 1 2, of "env_pending 0" "EPOLLIN OR EPOLLOUT"]
    by simp
qed

subsection \<open>Insertion by bisection keeps the plan sorted\<close>

lemma bisect_right_spec:
  "lo \<le> hi \<Longrightarrow> hi \<le> length a \<Longrightarrow> sorted a \<Longrightarrow>
   (\<forall>j<lo. a ! j \<le> x) \<Longrightarrow> (\<forall>j. hi \<le> j \<and> j < length a \<longrightarrow> x < a ! j) \<Longrightarrow>
   lo \<le> bisect_right a x lo hi \<and> bisect_right a x lo hi \<le> hi \<and>
   (\<forall>j<bisect_right a x lo hi. a ! j \<le> x) \<and>
   (\<forall>j. bisect_right a x lo hi \<le> j \<and> j < length a \<longrightarrow> x < a ! j)"
proof (induction a x lo hi rule: bisect_right.induct)
  case (1 a x lo hi)
  show ?case
  proof (cases "lo < hi")
    case False
    then have "bisect_right a x lo hi = lo" by (subst bisect_right.simps) simp
    with False "1.prems" show ?thesis by auto
  next
    case True
    define mid where "mid = (lo + hi) div 2"
    have mid: "lo \<le> mid" "mid < hi" using True by (auto simp: mid_def)
    show ?thesis
    proof (cases "x < a ! mid")
      case lt: True
      have up: "\<forall>j. mid \<le> j \<and> j < length a \<longrightarrow> x < a ! j"
      proof (intro allI impI)
        fix j assume j: "mid \<le> j \<and> j < length a"
        with \<open>sorted a\<close> have "a ! mid \<le> a ! j" by (simp add: sorted_nth_mono)
        with lt show "x < a ! j" by simp
      qed
      have "lo \<le> bisect_right a x lo mid \<and> bisect_right a x lo mid \<le> mid \<and>
            (\<forall>j<bisect_right a x lo mid. a ! j \<le> x) \<and>
            (\<forall>j. bisect_right a x lo mid \<le> j \<and> j < length a \<longrightarrow> x < a ! j)"
        using "1.IH"(1)[OF True mid_def lt] mid "1.prems" up by simp
      moreover have "bisect_right a x lo hi = bisect_right a x lo mid"
        using True lt by (subst bisect_right.simps) (simp add: mid_def Let_def)
      ultimately show ?thesis using mid by simp
    next
      case ge: False
      have low: "\<forall>j<mid + 1. a ! j \<le> x"
      proof (intro allI impI)
        fix j assume j: "j < mid + 1"
        have "mid < length a" using mid "1.prems" by simp
        with j \<open>sorted a\<close> have "a ! j \<le> a ! mid" by (simp add: sorted_nth_mono)
        with ge show "a ! j \<le> x" by simp
      qed
      have "mid + 1 \<le> bisect_right a x (mid + 1) hi \<and> bisect_right a x (mid + 1) hi \<le> hi \<and>
            (\<forall>j<bisect_right a x (mid + 1) hi. a ! j \<le> x) \<and>
            (\<forall>j. bisect_right a x (mid + 1) hi \<le> j \<and> j < length a \<longrightarrow> x < a ! j)"
        using "1.IH"(2)[OF True mid_def ge] mid "1.prems" low by simp
      moreover have "bisect_right a x lo hi = bisect_right a x (mid + 1) hi"
        using True ge by (subst bisect_right.simps) (simp add: mid_def Let_def)
      ultimately show ?thesis using mid by simp
    qed
  qed
qed

lemma sorted_list_insert_bisect:
  assumes "sorted a"
  shows "sorted (list_insert (bisect a x) x a)"
proof -
  define r where "r = bisect a x"
  have "0 \<le> bisect_right a x 0 (length a) \<and> bisect_right a x 0 (length a) \<le> length a \<and>
   (\<forall>j<bisect_right a x 0 (length a). a ! j \<le> x) \<and>
   (\<forall>j. bisect_right a x 0 (length a) \<le> j \<and> j < length a \<longrightarrow> x < a ! j)"
    by (rule bisect_right_spec) (use assms in auto)
  then have r: "r \<le> length a" "\<forall>j<r. a ! j \<le> x"
      "\<forall>j. r \<le> j \<and> j < length a \<longrightarrow> x < a ! j"
    by (simp_all add: r_def bisect_def)
  have 1: "\<forall>y\<in>set (take r a). y \<le> x"
    using r by (auto simp: in_set_conv_nth)
  have 2: "\<forall>y\<in>set (drop r a). x \<le> y"
    using r by (auto simp: in_set_conv_nth less_imp_le)
  have 3: "\<forall>y\<in>set (take r a). \<forall>z\<in>set (drop r a). y \<le> z"
    using 1 2 by (meson order_trans)
  show ?thesis
    unfolding list_insert_def r_def[symmetric]
    using assms 1 2 3 by (simp add: sorted_append sorted_wrt_take sorted_wrt_drop)
qed

lemma bisect_Nil: "bisect [] x = 0"
  by (simp add: bisect_def bisect_right.simps)

lemma fst_le_of_le: "(x :: 'a::linorder \<times> 'b::linorder) \<le> y \<Longrightarrow> fst x \<le> fst y"
  by (auto simp: less_eq_prod_def)

lemma sorted_map_fst:
  "sorted (xs :: ('a::linorder \<times> 'b::linorder) list) \<Longrightarrow> sorted (map fst xs)"
  by (induction xs) (auto simp: fst_le_of_le)

lemma sorted_takeWhile_prefix: "sorted xs \<Longrightarrow> sorted (takeWhile P xs)"
  by (metis sorted_append takeWhile_dropWhile_id)

subsection \<open>The concrete states\<close>

lemma link_one_connector_eq:
  "link_one_connector =
     (link_init 3)\<lparr>connectors := [(addr_a, None)], reconnect_intervals := [(addr_a, 3)],
                   plannned_connections := [(0, addr_a)]\<rparr>"
  by (simp add: link_one_connector_def add_connector_def env_pending_def link_init_def
      plan_connect_def bisect_Nil list_insert_def addr_a_def RECONNECT_INTERVAL_def Let_def)

lemma attempt_not_failing_env_pending: "attempt_not_failing (env_pending k)"
  by (simp add: attempt_not_failing_def env_pending_def)

lemma str_int_1: "str_int 1 = ''1''"
  by (simp add: str_int_def digits.simps digit_char_def)

lemma str_int_5: "str_int 5 = ''5''"
  by (simp add: str_int_def digits.simps digit_char_def)

lemma link_connecting_reached:
  "deal_connects 97 env_pending link_one_connector = Some (Returns (), link_connecting)"
  unfolding deal_connects_def
  apply (subst deal_loop.simps)
  apply (simp add: link_one_connector_eq link_init_def)
  apply (subst deal_loop.simps)
  apply (simp add: connect_def env_pending_def plain_socket_def link_connecting_def sock_a_def
      link_one_connector_eq link_init_def
      poller_register_def emit_def errno_defs epoll_defs deal_finish_def Let_def)
  done

lemma link_connected_reached:
  "handle_fd_mask (env_pending 0) 5 EPOLLOUT link_connecting = (Returns (), link_connected)"
  by (simp add: handle_fd_mask_def handle_sock_io_def handle_connect_def new_connection_id_def
      and_then_def link_connecting_def link_connected_def link_one_connector_eq link_init_def
      sock_a_def poller_modify_def emit_def epoll_defs Let_def str_int_1 str_int_5)

lemma link_connected_eq:
  "link_connected =
     \<lparr>reconnect_interval = 3, do_loop = False, new_conn_id = 1,
      poller = [3 \<mapsto> 1, 5 \<mapsto> 1], poll_bell_r = 3,
      sock_by_fd = [(5, sock_a)], conn_by_sock = [(sock_a, ''1fd5'')],
      sock_by_conn = [(''1fd5'', sock_a)],
      listen_socks = [], listen_socks_filenos = {},
      connectors = [(addr_a, Some sock_a)], socks_addresses = [(sock_a, addr_a)],
      socks_waiting_to_connect = {},
      plannned_connections = [], reconnect_intervals = [(addr_a, 3)],
      ssl_config = [], in_ssl_handshake = {},
      trace = [SockConnect sock_a addr_a, OnConnect ''1fd5'']\<rparr>"
  by (simp add: link_connected_def link_connecting_def link_one_connector_eq link_init_def
      RECONNECT_INTERVAL_def epoll_defs)

subsection \<open>Connection attempts that do not fail\<close>

lemma connect_attempts_append:
  "connect_attempts (xs @ ys) = connect_attempts xs @ connect_attempts ys"
  by (induction xs rule: connect_attempts.induct) simp_all

lemma connect_not_failing:
  assumes "attempt_not_failing env"
  shows "\<exists>s'. connect env a s = (Returns (), s') \<and>
           plannned_connections s' = plannned_connections s \<and>
           reconnect_intervals s' = reconnect_intervals s \<and>
           connect_attempts (trace s') = connect_attempts (trace s) @ [a]"
  using assms
  by (auto simp: attempt_not_failing_def connect_def handle_connect_def ssl_handshake_def
      new_connection_id_def and_then_def emit_def poller_register_def poller_modify_def
      Let_def errno_defs connect_attempts_append wrap_socket_def plain_socket_def
      split: option.splits)

lemma due_entry_cong:
  "reconnect_intervals s1 = reconnect_intervals s \<Longrightarrow> due_entry s1 now = due_entry s now"
  by (rule ext) (simp add: due_entry_def)

lemma deal_loop_prefix:
  assumes envs: "\<And>k. attempt_not_failing (envs k)"
  shows "i \<le> length P \<Longrightarrow> plannned_connections s = P \<Longrightarrow>
         \<forall>e\<in>set P. map_of (reconnect_intervals s) (snd e) \<noteq> None \<Longrightarrow>
         \<exists>s'. deal_loop now envs i s = Some (Returns (), s') \<and>
              plannned_connections s' =
                drop (i + length (takeWhile (due_entry s now) (drop i P))) P \<and>
              connect_attempts (trace s') =
                connect_attempts (trace s) @ map snd (takeWhile (due_entry s now) (drop i P))"
proof (induction "length P - i" arbitrary: i s)
  case 0
  then have i: "i = length P" by simp
  have "deal_loop now envs i s = Some (Returns (), deal_finish i s)"
    using i 0 by (subst deal_loop.simps) simp
  then show ?case using i 0 by (simp add: deal_finish_def)
next
  case (Suc n)
  then have lt: "i < length P" by simp
  obtain w address where e: "P ! i = (w, address)" by (cases "P ! i")
  have dr: "drop i P = (w, address) # drop (Suc i) P"
    using Cons_nth_drop_Suc[OF lt] e by simp
  have mem: "(w, address) \<in> set P" using lt e nth_mem[of i P] by simp
  have "map_of (reconnect_intervals s) (snd (w, address)) \<noteq> None"
    using Suc.prems(3) mem by blast
  then obtain interval where iv: "map_of (reconnect_intervals s) address = Some interval"
    by auto
  have pl: "plannned_connections s ! i = (w, address)" "i < length (plannned_connections s)"
    using e lt Suc.prems(2) by simp_all
  show ?case
  proof (cases "w \<le> now \<or> w > now + interval * 2")
    case False
    have "deal_loop now envs i s = Some (Returns (), deal_finish i s)"
      by (subst deal_loop.simps) (use pl iv False in simp)
    moreover have "\<not> due_entry s now (w, address)"
      using False iv by (simp add: due_entry_def)
    moreover have "plannned_connections (deal_finish i s) = drop i P"
      using Suc.prems(2) by (cases "i = 0") (simp_all add: deal_finish_def)
    moreover have "trace (deal_finish i s) = trace s"
      by (simp add: deal_finish_def)
    ultimately show ?thesis by (simp add: dr)
  next
    case True
    from connect_not_failing[OF envs, of i address s]
    obtain s1 where s1: "connect (envs i) address s = (Returns (), s1)"
        "plannned_connections s1 = plannned_connections s"
        "reconnect_intervals s1 = reconnect_intervals s"
        "connect_attempts (trace s1) = connect_attempts (trace s) @ [address]"
      by blast
    have step: "deal_loop now envs i s = deal_loop now envs (i + 1) s1"
      by (subst deal_loop.simps) (use pl iv True s1(1) in simp)
    have due: "due_entry s now (w, address)"
      using True iv by (simp add: due_entry_def)
    have cg: "due_entry s1 now = due_entry s now" using s1(3) by (rule due_entry_cong)
    have "\<exists>s'. deal_loop now envs (i + 1) s1 = Some (Returns (), s') \<and>
              plannned_connections s' =
                drop (i + 1 + length (takeWhile (due_entry s1 now) (drop (i + 1) P))) P \<and>
              connect_attempts (trace s') =
                connect_attempts (trace s1) @ map snd (takeWhile (due_entry s1 now) (drop (i + 1) P))"
    proof (rule Suc.hyps(1))
      show "n = length P - (i + 1)" using Suc.hyps(2) by simp
      show "i + 1 \<le> length P" using lt by simp
      show "plannned_connections s1 = P" using s1(2) Suc.prems(2) by simp
      show "\<forall>e\<in>set P. map_of (reconnect_intervals s1) (snd e) \<noteq> None"
        using s1(3) Suc.prems(3) by simp
    qed
    then obtain s' where s': "deal_loop now envs (i + 1) s1 = Some (Returns (), s')"
        "plannned_connections s' =
           drop (i + 1 + length (takeWhile (due_entry s now) (drop (i + 1) P))) P"
        "connect_attempts (trace s') =
           connect_attempts (trace s1) @ map snd (takeWhile (due_entry s now) (drop (i + 1) P))"
      unfolding cg by blast
    have "deal_loop now envs i s = Some (Returns (), s')" using step s'(1) by simp
    moreover have "plannned_connections s' =
        drop (i + length (takeWhile (due_entry s now) (drop i P))) P"
      using s'(2) due by (simp add: dr)
    moreover have "connect_attempts (trace s') =
        connect_attempts (trace s) @ map snd (takeWhile (due_entry s now) (drop i P))"
      using s'(3) s1(4) due by (simp add: dr)
    ultimately show ?thesis by blast
  qed
qed

subsection \<open>Dealing the planned connections\<close>

text \<open>
  C1, as amended. Let every planned address have a reconnect interval and let no
  connection attempt fail. Then \<open>deal_connects\<close> returns; it has removed exactly the
  longest prefix of the plan whose entries pass the test of the source, that the due time
  has elapsed (\<open>when \<le> now\<close>) or lies more than twice the interval ahead of the clock
  (\<open>when > now + 2 * interval\<close>); it has attempted one connection for each entry of that
  prefix, in the order of the list, which is the ascending order of the due times when
  the plan is sorted; and it has stopped at the first entry with
  \<open>now < when \<le> now + 2 * interval\<close>.
\<close>

theorem deal_connects_due_prefix:
  assumes "\<forall>e\<in>set (plannned_connections s). map_of (reconnect_intervals s) (snd e) \<noteq> None"
    and "\<forall>k. attempt_not_failing (envs k)"
  shows "\<exists>s'. deal_connects now envs s = Some (Returns (), s') \<and>
           plannned_connections s' = dropWhile (due_entry s now) (plannned_connections s) \<and>
           connect_attempts (trace s') =
             connect_attempts (trace s) @
             map snd (takeWhile (due_entry s now) (plannned_connections s)) \<and>
           (sorted (plannned_connections s) \<longrightarrow>
              sorted (map fst (takeWhile (due_entry s now) (plannned_connections s))))"
proof -
  have "\<exists>s'. deal_loop now envs 0 s = Some (Returns (), s') \<and>
          plannned_connections s' =
            drop (0 + length (takeWhile (due_entry s now) (drop 0 (plannned_connections s))))
              (plannned_connections s) \<and>
          connect_attempts (trace s') =
            connect_attempts (trace s) @
            map snd (takeWhile (due_entry s now) (drop 0 (plannned_connections s)))"
    by (rule deal_loop_prefix) (use assms in simp_all)
  moreover have "sorted (plannned_connections s) \<longrightarrow>
      sorted (map fst (takeWhile (due_entry s now) (plannned_connections s)))"
    by (simp add: sorted_map_fst sorted_takeWhile_prefix)
  ultimately show ?thesis
    by (simp add: deal_connects_def dropWhile_eq_drop)
qed

theorem deal_connects_due_prefix_witness:
  "plannned_connections link_two_entries = [(0, addr_a), (99, addr_a)] \<and>
   map_of (reconnect_intervals link_two_entries) addr_a = Some 3 \<and>
   (\<forall>k. attempt_not_failing (env_pending k)) \<and>
   (\<exists>s'. deal_connects 97 env_pending link_two_entries = Some (Returns (), s') \<and>
         plannned_connections s' = [(99, addr_a)] \<and>
         connect_attempts (trace s') = [addr_a])"
proof -
  have 1: "\<forall>e\<in>set (plannned_connections link_two_entries).
      map_of (reconnect_intervals link_two_entries) (snd e) \<noteq> None"
    by (simp add: link_two_entries_def link_one_connector_eq)
  have 2: "\<forall>k. attempt_not_failing (env_pending k)"
    by (simp add: attempt_not_failing_env_pending)
  have 3: "due_entry link_two_entries 97 (0, addr_a)"
    by (simp add: due_entry_def link_two_entries_def link_one_connector_eq)
  have 4: "\<not> due_entry link_two_entries 97 (99, addr_a)"
    by (simp add: due_entry_def link_two_entries_def link_one_connector_eq)
  have 5: "plannned_connections link_two_entries = [(0, addr_a), (99, addr_a)]"
    by (simp add: link_two_entries_def)
  have 6: "trace link_two_entries = []"
    by (simp add: link_two_entries_def link_one_connector_eq link_init_def)
  have 7: "map_of (reconnect_intervals link_two_entries) addr_a = Some 3"
    by (simp add: link_two_entries_def link_one_connector_eq)
  show ?thesis
    using 2 7 deal_connects_due_prefix [OF 1 2, of 97]
    by (simp add: 3 4 5 6)
qed

text \<open>
  The refused connection of the link \<open>link_connecting\<close> is planned again for the time
  13. At the time 0 that entry has not elapsed, yet \<open>deal_connects\<close> attempts the
  connection and removes the entry, since 13 is more than twice the interval 3 ahead.
\<close>

lemma link_refused_reached:
  "handle_fd_mask (env_pending 0) 5 EPOLLERR link_connecting = (Returns (), link_refused)"
  by (simp add: handle_fd_mask_def handle_sock_err_def handle_conn_refused_def
      poller_unregister_def emit_def plan_connect_def bisect_Nil list_insert_def
      link_connecting_def link_refused_def link_one_connector_eq link_init_def sock_a_def
      env_pending_def epoll_defs Let_def)

theorem deal_connects_future_entry_counterexample:
  "handle_fd_mask (env_pending 0) 5 EPOLLERR link_connecting = (Returns (), link_refused) \<and>
   plannned_connections link_refused = [(13, addr_a)] \<and>
   \<not> elapsed 0 (13, addr_a) \<and>
   deal_connects 0 env_later link_refused = Some (Returns (), link_refused_dealt) \<and>
   plannned_connections link_refused_dealt = [] \<and>
   connect_attempts (trace link_refused_dealt) = [addr_a, addr_a] \<and>
   plannned_connections link_refused_dealt \<noteq>
     dropWhile (elapsed 0) (plannned_connections link_refused)"
proof -
  have "deal_loop 0 env_later 0 link_refused = Some (Returns (), link_refused_dealt)"
    apply (subst deal_loop.simps)
    apply (simp add: link_refused_def link_connecting_def link_one_connector_eq link_init_def)
    apply (subst deal_loop.simps)
    apply (simp add: connect_def env_later_def env_pending_def plain_socket_def
      link_refused_dealt_def link_refused_def link_connecting_def link_one_connector_eq
      link_init_def poller_register_def emit_def errno_defs epoll_defs deal_finish_def Let_def)
    done
  then show ?thesis
    using link_refused_reached
    by (simp add: deal_connects_def elapsed_def link_refused_dealt_def link_refused_def)
qed

subsection \<open>Adding a connector twice\<close>

text \<open>
  C5. The address \<open>addr_a\<close> has a connector and no TLS configuration. Adding it again
  with a TLS configuration raises \<open>ValueError\<close>, as the specification says, but the state is not
  the same: line 175 has stored the configuration before line 176 tests the address.
\<close>

theorem add_connector_duplicate_stores_ssl_config:
  "map_of (connectors link_one_connector) addr_a \<noteq> None \<and>
   ssl_config link_one_connector = [] \<and>
   add_connector (env_pending 0) addr_a None (Some tls_config) link_one_connector =
     (Raises ValueError, link_one_connector\<lparr>ssl_config := [(Inl addr_a, tls_config)]\<rparr>) \<and>
   ssl_config (snd (add_connector (env_pending 0) addr_a None (Some tls_config)
     link_one_connector)) \<noteq> ssl_config link_one_connector"
  by (simp add: link_one_connector_eq add_connector_def env_pending_def link_init_def
      addr_a_def Let_def)

text \<open>Without a TLS configuration the failure is atomic.\<close>

lemma add_connector_duplicate_no_config:
  "gethostbyname env (fst addr) = Some host \<Longrightarrow>
   map_of (connectors s) (host, snd addr) \<noteq> None \<Longrightarrow>
   add_connector env addr interval None s = (Raises ValueError, s)"
  by (simp add: add_connector_def Let_def)

subsection \<open>Deleting a connector\<close>

text \<open>
  C4, as amended. For a registered connector address (one with a connector record and a
  reconnect interval) whose socket, if it has one, is connected (it no longer waits to
  connect), \<open>del_connector\<close> returns; it has removed the connector record, the reconnect
  interval and the TLS configuration of the address and every planned entry for the
  address. The live socket is not disconnected: the socket table, the poller, the
  identifier maps, the map from sockets to addresses, the set of the sockets waiting to
  connect and the trace (no shutdown, no close, no callback) are the same.
\<close>

theorem del_connector_forgets_address:
  assumes "map_of (connectors s) addr = Some sk"
    and "map_of (reconnect_intervals s) addr \<noteq> None"
    and "\<forall>k. sk = Some k \<longrightarrow> k \<notin> socks_waiting_to_connect s"
  shows "\<exists>s'. del_connector addr s = (Returns (), s') \<and>
     map_of (connectors s') addr = None \<and> map_of (reconnect_intervals s') addr = None \<and>
     map_of (ssl_config s') (Inl addr) = None \<and>
     addr \<notin> snd ` set (plannned_connections s') \<and>
     plannned_connections s' = filter (\<lambda>e. snd e \<noteq> addr) (plannned_connections s) \<and>
     socks_waiting_to_connect s' = socks_waiting_to_connect s \<and>
     sock_by_fd s' = sock_by_fd s \<and> poller s' = poller s \<and> trace s' = trace s \<and>
     conn_by_sock s' = conn_by_sock s \<and> sock_by_conn s' = sock_by_conn s \<and>
     socks_addresses s' = socks_addresses s"
  using assms
  by (auto simp: del_connector_def Let_def delete_conv' case_prod_unfold split: option.splits)

theorem del_connector_forgets_address_witness:
  "map_of (connectors link_connected) addr_a = Some (Some sock_a) \<and>
   map_of (reconnect_intervals link_connected) addr_a \<noteq> None \<and>
   sock_a \<notin> socks_waiting_to_connect link_connected \<and>
   (\<exists>s'. del_connector addr_a link_connected = (Returns (), s') \<and>
      map_of (connectors s') addr_a = None \<and> map_of (reconnect_intervals s') addr_a = None \<and>
      sock_by_fd s' = [(5, sock_a)] \<and> conn_by_sock s' = [(sock_a, ''1fd5'')] \<and>
      trace s' = [SockConnect sock_a addr_a, OnConnect ''1fd5''])"
proof -
  have 1: "map_of (connectors link_connected) addr_a = Some (Some sock_a)"
    by (simp add: link_connected_eq)
  have 2: "map_of (reconnect_intervals link_connected) addr_a \<noteq> None"
    by (simp add: link_connected_eq)
  have 3: "\<forall>k. Some sock_a = Some k \<longrightarrow> k \<notin> socks_waiting_to_connect link_connected"
    by (simp add: link_connected_eq)
  have 4: "sock_a \<notin> socks_waiting_to_connect link_connected"
    by (simp add: link_connected_eq)
  from del_connector_forgets_address [OF 1 2 3]
  obtain s' where s': "del_connector addr_a link_connected = (Returns (), s')"
    "map_of (connectors s') addr_a = None" "map_of (reconnect_intervals s') addr_a = None"
    "sock_by_fd s' = sock_by_fd link_connected" "trace s' = trace link_connected"
    "conn_by_sock s' = conn_by_sock link_connected"
    by (elim exE conjE) (rule that, assumption+)
  show ?thesis
    using 1 2 4 s' by (simp add: link_connected_eq)
qed

theorem del_connector_live_socket_counterexample:
  "map_of (connectors link_connected) addr_a = Some (Some sock_a) \<and>
   fst (del_connector addr_a link_connected) = Returns () \<and>
   map_of (sock_by_fd (snd (del_connector addr_a link_connected))) 5 = Some sock_a \<and>
   poller (snd (del_connector addr_a link_connected)) 5 = Some EPOLLIN \<and>
   map_of (sock_by_conn (snd (del_connector addr_a link_connected))) ''1fd5'' = Some sock_a \<and>
   SockClose sock_a \<notin> set (trace (snd (del_connector addr_a link_connected)))"
  by (simp add: del_connector_def link_connected_eq Let_def epoll_defs)

subsection \<open>Closing a socket\<close>



lemma handle_close_ok:
  assumes fd: "map_of (sock_by_fd s) (fileno sk) \<noteq> None"
      and sd: "shutdown_completes env"
      and ids: "\<forall>conn. map_of (conn_by_sock s) sk = Some conn \<longrightarrow>
                 map_of (sock_by_conn s) conn \<noteq> None"
  shows "\<exists>s'. handle_close env sk s = (Returns (), s') \<and>
      map_of (sock_by_fd s') (fileno sk) = None \<and>
      poller s' (fileno sk) = None \<and>
      map_of (conn_by_sock s') sk = None \<and>
      map_of (socks_addresses s') sk = None \<and>
      (\<forall>conn. map_of (conn_by_sock s) sk = Some conn \<longrightarrow>
          map_of (sock_by_conn s') conn = None \<and>
          trace s' = trace s @ [SockShutdown sk, SockClose sk] @
             (if is_ssl sk \<and> sk \<in> in_ssl_handshake s then [] else [OnDisconnect conn])) \<and>
      (map_of (conn_by_sock s) sk = None \<longrightarrow>
          sock_by_conn s' = sock_by_conn s \<and>
          trace s' = trace s @ [SockShutdown sk, SockClose sk]) \<and>
      (\<forall>address interval.
          map_of (socks_addresses s) sk = Some address \<and>
          map_of (reconnect_intervals s) address = Some interval \<and> interval \<noteq> 0 \<longrightarrow>
          plannned_connections s' =
            plannned_connections (plan_connect (time_time env + interval) address s)) \<and>
      (map_of (socks_addresses s) sk = None \<or>
       (\<exists>address. map_of (socks_addresses s) sk = Some address \<and>
          (map_of (reconnect_intervals s) address = None \<or>
           map_of (reconnect_intervals s) address = Some 0)) \<longrightarrow>
          plannned_connections s' = plannned_connections s)"
  using assms
  by (auto simp: handle_close_def del_connection_id_def and_then_def emit_def plan_connect_def
      poller_unregister_def Let_def shutdown_completes_def delete_conv'
      split: option.splits syscall.splits)




subsection \<open>Sending\<close>

lemma connection_fatal_not_wouldblock: "connection_fatal err \<Longrightarrow> err \<noteq> EWOULDBLOCK"
  by (auto simp: connection_fatal_def errno_defs)

text \<open>
  C2, as amended. For a connection identifier in the table, \<open>send\<close> asks the operating
  system for one write. If the write takes \<open>n\<close> bytes, \<open>send\<close> returns \<open>n\<close>. If it would
  block (\<open>EWOULDBLOCK\<close>), \<open>send\<close> returns 0 and the state is the same. If it fails with
  one of \<open>ECONNRESET\<close>, \<open>ENOTCONN\<close>, \<open>ESHUTDOWN\<close>, \<open>ECONNABORTED\<close>, \<open>EPIPE\<close>, \<open>EBADF\<close>,
  \<open>send\<close> runs \<open>handle_close\<close> on the socket: when \<open>handle_close\<close> returns, \<open>send\<close>
  returns 0 and raises nothing, and when \<open>handle_close\<close> raises, \<open>send\<close> raises the same.
  So, for a socket that is in the socket table and carries this identifier, \<open>send\<close>
  returns 0 when the shutdown succeeds or reports \<open>ENOTCONN\<close>, the socket then having left
  the socket table, the poller and both identifier maps and having been closed; \<open>send\<close>
  raises the error of the shutdown when that is any other error; and \<open>send\<close> raises
  \<open>KeyError\<close> for a socket that is not in the socket table. Any other socket error of the
  write is raised, with the state the same.
\<close>

theorem send_single_write:
  assumes "map_of (sock_by_conn s) conn = Some sk"
  shows "(\<forall>n. sock_send env = Ok n \<longrightarrow>
            send env conn data s = (Returns n, poller_modify sk (EPOLLIN OR EPOLLOUT) s)) \<and>
         (sock_send env = Err EWOULDBLOCK \<longrightarrow> send env conn data s = (Returns 0, s)) \<and>
         (\<forall>err. sock_send env = Err err \<and> connection_fatal err \<longrightarrow>
            (\<forall>s'. handle_close env sk s = (Returns (), s') \<longrightarrow>
                  send env conn data s = (Returns 0, s')) \<and>
            (\<forall>e s'. handle_close env sk s = (Raises e, s') \<longrightarrow>
                  send env conn data s = (Raises e, s')) \<and>
            (map_of (sock_by_fd s) (fileno sk) \<noteq> None \<and>
             map_of (conn_by_sock s) sk = Some conn \<and> shutdown_completes env \<longrightarrow>
               (\<exists>s'. send env conn data s = (Returns 0, s') \<and>
                  map_of (sock_by_fd s') (fileno sk) = None \<and>
                  poller s' (fileno sk) = None \<and>
                  map_of (conn_by_sock s') sk = None \<and>
                  map_of (sock_by_conn s') conn = None \<and>
                  SockClose sk \<in> set (trace s'))) \<and>
            (map_of (sock_by_fd s) (fileno sk) \<noteq> None \<longrightarrow>
               (\<forall>e. shutdown env = Err e \<and> e \<noteq> ENOTCONN \<longrightarrow>
                  fst (send env conn data s) = Raises (SocketError e))) \<and>
            (map_of (sock_by_fd s) (fileno sk) = None \<longrightarrow>
               fst (send env conn data s) = Raises KeyError)) \<and>
         (\<forall>err. sock_send env = Err err \<and> err \<noteq> EWOULDBLOCK \<and> \<not> connection_fatal err \<longrightarrow>
            send env conn data s = (Raises (SocketError err), s))"
proof (intro conjI allI impI)
  fix n assume "sock_send env = Ok n"
  then show "send env conn data s = (Returns n, poller_modify sk (EPOLLIN OR EPOLLOUT) s)"
    using assms by (simp add: send_def)
next
  assume "sock_send env = Err EWOULDBLOCK"
  then show "send env conn data s = (Returns 0, s)"
    using assms by (simp add: send_def)
next
  fix err s'
  assume "sock_send env = Err err \<and> connection_fatal err"
    and "handle_close env sk s = (Returns (), s')"
  then show "send env conn data s = (Returns 0, s')"
    using assms connection_fatal_not_wouldblock [of err] by (simp add: send_def and_then_def)
next
  fix err e s'
  assume "sock_send env = Err err \<and> connection_fatal err"
    and "handle_close env sk s = (Raises e, s')"
  then show "send env conn data s = (Raises e, s')"
    using assms connection_fatal_not_wouldblock [of err] by (simp add: send_def and_then_def)
next
  fix err
  assume f: "sock_send env = Err err \<and> connection_fatal err"
    and a: "map_of (sock_by_fd s) (fileno sk) \<noteq> None \<and>
             map_of (conn_by_sock s) sk = Some conn \<and> shutdown_completes env"
  have ids: "\<forall>c. map_of (conn_by_sock s) sk = Some c \<longrightarrow> map_of (sock_by_conn s) c \<noteq> None"
    using a assms by simp
  have fd: "map_of (sock_by_fd s) (fileno sk) \<noteq> None" using a by simp
  have sd: "shutdown_completes env" using a by simp
  from handle_close_ok [OF fd sd ids]
  obtain s' where s': "handle_close env sk s = (Returns (), s')"
      "map_of (sock_by_fd s') (fileno sk) = None" "poller s' (fileno sk) = None"
      "map_of (conn_by_sock s') sk = None"
      "\<forall>c. map_of (conn_by_sock s) sk = Some c \<longrightarrow>
          map_of (sock_by_conn s') c = None \<and>
          trace s' = trace s @ [SockShutdown sk, SockClose sk] @
             (if is_ssl sk \<and> sk \<in> in_ssl_handshake s then [] else [OnDisconnect c])"
    by (elim exE conjE) (rule that, assumption+)
  have 1: "map_of (sock_by_conn s') conn = None \<and> SockClose sk \<in> set (trace s')"
    using s'(5) a by simp
  have 2: "send env conn data s = (Returns 0, s')"
    using assms f s'(1) connection_fatal_not_wouldblock [of err]
    by (simp add: send_def and_then_def)
  show "\<exists>s'. send env conn data s = (Returns 0, s') \<and>
                  map_of (sock_by_fd s') (fileno sk) = None \<and>
                  poller s' (fileno sk) = None \<and>
                  map_of (conn_by_sock s') sk = None \<and>
                  map_of (sock_by_conn s') conn = None \<and>
                  SockClose sk \<in> set (trace s')"
    using 1 2 s'(2,3,4) by blast
next
  fix err e
  assume "sock_send env = Err err \<and> connection_fatal err"
    and "map_of (sock_by_fd s) (fileno sk) \<noteq> None"
    and "shutdown env = Err e \<and> e \<noteq> ENOTCONN"
  then show "fst (send env conn data s) = Raises (SocketError e)"
    using assms connection_fatal_not_wouldblock [of err]
    by (auto simp: send_def and_then_def handle_close_def poller_unregister_def emit_def Let_def)
next
  fix err
  assume "sock_send env = Err err \<and> connection_fatal err"
    and "map_of (sock_by_fd s) (fileno sk) = None"
  then show "fst (send env conn data s) = Raises KeyError"
    using assms connection_fatal_not_wouldblock [of err]
    by (auto simp: send_def and_then_def handle_close_def poller_unregister_def Let_def)
next
  fix err
  assume "sock_send env = Err err \<and> err \<noteq> EWOULDBLOCK \<and> \<not> connection_fatal err"
  then show "send env conn data s = (Raises (SocketError err), s)"
    using assms by (simp add: send_def)
qed

theorem send_single_write_witness:
  "map_of (sock_by_conn link_connected) ''1fd5'' = Some sock_a \<and>
   send ((env_pending 0)\<lparr>sock_send := Ok 3\<rparr>) ''1fd5'' ''ping'' link_connected =
     (Returns 3, poller_modify sock_a (EPOLLIN OR EPOLLOUT) link_connected) \<and>
   send (env_pending 0) ''1fd5'' ''ping'' link_connected = (Returns 0, link_connected) \<and>
   (\<exists>s'. send ((env_pending 0)\<lparr>sock_send := Err EPIPE\<rparr>) ''1fd5'' ''ping'' link_connected =
           (Returns 0, s') \<and>
         map_of (sock_by_fd s') (fileno sock_a) = None \<and>
         map_of (sock_by_conn s') ''1fd5'' = None \<and>
         SockClose sock_a \<in> set (trace s')) \<and>
   fst (send ((env_pending 0)\<lparr>sock_send := Err EPIPE, shutdown := Err 5\<rparr>) ''1fd5'' ''ping''
     link_connected) = Raises (SocketError 5) \<and>
   send ((env_pending 0)\<lparr>sock_send := Err 5\<rparr>) ''1fd5'' ''ping'' link_connected =
     (Raises (SocketError 5), link_connected)"
proof -
  have 1: "map_of (sock_by_conn link_connected) ''1fd5'' = Some sock_a"
    by (simp add: link_connected_eq)
  have ok: "sock_send ((env_pending 0)\<lparr>sock_send := Ok 3\<rparr>) = Ok 3" by simp
  have wb: "sock_send (env_pending 0) = Err EWOULDBLOCK" by (simp add: env_pending_def)
  have fatal: "sock_send ((env_pending 0)\<lparr>sock_send := Err EPIPE\<rparr>) = Err EPIPE \<and>
      connection_fatal EPIPE"
    by (simp add: connection_fatal_def)
  have closes: "map_of (sock_by_fd link_connected) (fileno sock_a) \<noteq> None \<and>
      map_of (conn_by_sock link_connected) sock_a = Some ''1fd5'' \<and>
      shutdown_completes ((env_pending 0)\<lparr>sock_send := Err EPIPE\<rparr>)"
    by (simp add: link_connected_eq sock_a_def shutdown_completes_def env_pending_def)
  have fatal2: "sock_send ((env_pending 0)\<lparr>sock_send := Err EPIPE, shutdown := Err 5\<rparr>) =
      Err EPIPE \<and> connection_fatal EPIPE"
    by (simp add: connection_fatal_def)
  have fails: "map_of (sock_by_fd link_connected) (fileno sock_a) \<noteq> None"
      "shutdown ((env_pending 0)\<lparr>sock_send := Err EPIPE, shutdown := Err 5\<rparr>) = Err 5 \<and>
       5 \<noteq> ENOTCONN"
    by (simp_all add: link_connected_eq sock_a_def errno_defs)
  have other: "sock_send ((env_pending 0)\<lparr>sock_send := Err 5\<rparr>) = Err 5 \<and>
      5 \<noteq> EWOULDBLOCK \<and> \<not> connection_fatal 5"
    by (simp add: connection_fatal_def errno_defs)
  have a: "send ((env_pending 0)\<lparr>sock_send := Ok 3\<rparr>) ''1fd5'' ''ping'' link_connected =
     (Returns 3, poller_modify sock_a (EPOLLIN OR EPOLLOUT) link_connected)"
    using send_single_write [OF 1, of "(env_pending 0)\<lparr>sock_send := Ok 3\<rparr>" "''ping''"] ok
    by blast
  have b: "send (env_pending 0) ''1fd5'' ''ping'' link_connected = (Returns 0, link_connected)"
    using send_single_write [OF 1, of "env_pending 0" "''ping''"] wb by blast
  have c: "\<exists>s'. send ((env_pending 0)\<lparr>sock_send := Err EPIPE\<rparr>) ''1fd5'' ''ping'' link_connected =
           (Returns 0, s') \<and>
         map_of (sock_by_fd s') (fileno sock_a) = None \<and>
         map_of (sock_by_conn s') ''1fd5'' = None \<and>
         SockClose sock_a \<in> set (trace s')"
    using send_single_write [OF 1, of "(env_pending 0)\<lparr>sock_send := Err EPIPE\<rparr>" "''ping''"]
      fatal closes by blast
  have d: "fst (send ((env_pending 0)\<lparr>sock_send := Err EPIPE, shutdown := Err 5\<rparr>) ''1fd5''
      ''ping'' link_connected) = Raises (SocketError 5)"
    using send_single_write [OF 1,
        of "(env_pending 0)\<lparr>sock_send := Err EPIPE, shutdown := Err 5\<rparr>" "''ping''"]
      fatal2 fails by blast
  have e: "send ((env_pending 0)\<lparr>sock_send := Err 5\<rparr>) ''1fd5'' ''ping'' link_connected =
     (Raises (SocketError 5), link_connected)"
    using send_single_write [OF 1, of "(env_pending 0)\<lparr>sock_send := Err 5\<rparr>" "''ping''"]
      other by blast
  show ?thesis using 1 a b c d e by blast
qed

text \<open>
  The write on the connected socket of \<open>link_connected\<close> fails with \<open>EBADF\<close>, one of the
  six errors, and so does the shutdown of the close handling: \<open>send\<close> does not return 0, it
  raises \<open>EBADF\<close> to the caller.
\<close>

theorem send_fatal_error_raises_counterexample:
  "map_of (sock_by_conn link_connected) ''1fd5'' = Some sock_a \<and>
   connection_fatal EBADF \<and>
   fst (send ((env_pending 0)\<lparr>sock_send := Err EBADF, shutdown := Err EBADF\<rparr>) ''1fd5'' ''ping''
     link_connected) = Raises (SocketError EBADF)"
  by (simp add: send_def handle_close_def link_connected_eq sock_a_def poller_unregister_def
      emit_def and_then_def connection_fatal_def errno_defs Let_def)

subsection \<open>Ready to send\<close>

text \<open>
  C3, as amended. For a connected socket (in the socket table under its descriptor, with a
  connection identifier, neither waiting to connect nor in a handshake):
  a \<open>send\<close> whose write fails with \<open>EWOULDBLOCK\<close> returns 0 and leaves the state, and so
  the registered interest, as it was; a \<open>send\<close> whose write succeeds registers the
  interest readable and writable. Whatever the interest registered, a readiness event for
  the descriptor whose mask has the writable bit and neither the error nor the hangup bit
  fires \<open>on_ready_to_send\<close> for the connection and sets the interest to readable, and
  then, if the mask has the readable bit too, goes on from that state as a readable event
  (\<open>handle_accept\<close> or \<open>handle_recv\<close>). A readiness event with the error or the hangup bit
  closes the connection instead: when the close handling completes, \<open>on_disconnect\<close> is the
  callback fired, not \<open>on_ready_to_send\<close>.
\<close>

theorem send_written_arms_ready_to_send:
  assumes "map_of (sock_by_conn s) conn = Some sk"
    and "map_of (sock_by_fd s) (fileno sk) = Some sk"
    and "map_of (conn_by_sock s) sk = Some conn"
    and "fileno sk \<noteq> poll_bell_r s"
    and "sk \<notin> in_ssl_handshake s"
    and "sk \<notin> socks_waiting_to_connect s"
  shows "(sock_send env = Err EWOULDBLOCK \<longrightarrow> send env conn data s = (Returns 0, s)) \<and>
         (\<forall>n. sock_send env = Ok n \<longrightarrow>
            send env conn data s =
              (Returns n, s\<lparr>poller := (poller s)(fileno sk \<mapsto> EPOLLIN OR EPOLLOUT)\<rparr>) \<and>
            (EPOLLIN OR EPOLLOUT) AND EPOLLOUT \<noteq> 0) \<and>
         (\<forall>p m. m AND EPOLLOUT \<noteq> 0 \<and> m AND (EPOLLERR OR EPOLLHUP) = 0 \<longrightarrow>
            handle_fd_mask env2 (fileno sk) m (s\<lparr>poller := p\<rparr>) =
              (if m AND EPOLLIN = 0
               then (Returns (),
                     emit (OnReadyToSend conn) (s\<lparr>poller := p(fileno sk \<mapsto> EPOLLIN)\<rparr>))
               else if fileno sk \<in> listen_socks_filenos s
               then handle_accept env2 sk
                      (emit (OnReadyToSend conn) (s\<lparr>poller := p(fileno sk \<mapsto> EPOLLIN)\<rparr>))
               else handle_recv env2 sk
                      (emit (OnReadyToSend conn) (s\<lparr>poller := p(fileno sk \<mapsto> EPOLLIN)\<rparr>)))) \<and>
         (\<forall>p m. m AND (EPOLLERR OR EPOLLHUP) \<noteq> 0 \<and> shutdown_completes env2 \<longrightarrow>
            (\<exists>s'. handle_fd_mask env2 (fileno sk) m (s\<lparr>poller := p\<rparr>) = (Returns (), s') \<and>
                  trace s' = trace s @ [SockShutdown sk, SockClose sk, OnDisconnect conn]))"
proof (intro conjI allI impI)
  assume "sock_send env = Err EWOULDBLOCK"
  then show "send env conn data s = (Returns 0, s)"
    using assms(1) by (simp add: send_def)
next
  fix n assume "sock_send env = Ok n"
  then show "send env conn data s =
      (Returns n, s\<lparr>poller := (poller s)(fileno sk \<mapsto> EPOLLIN OR EPOLLOUT)\<rparr>)"
    using assms(1) by (simp add: send_def poller_modify_def)
next
  fix n
  show "(EPOLLIN OR EPOLLOUT) AND EPOLLOUT \<noteq> 0" by (simp add: epoll_defs)
next
  fix p m
  assume "m AND EPOLLOUT \<noteq> 0 \<and> m AND (EPOLLERR OR EPOLLHUP) = 0"
  then show "handle_fd_mask env2 (fileno sk) m (s\<lparr>poller := p\<rparr>) =
              (if m AND EPOLLIN = 0
               then (Returns (),
                     emit (OnReadyToSend conn) (s\<lparr>poller := p(fileno sk \<mapsto> EPOLLIN)\<rparr>))
               else if fileno sk \<in> listen_socks_filenos s
               then handle_accept env2 sk
                      (emit (OnReadyToSend conn) (s\<lparr>poller := p(fileno sk \<mapsto> EPOLLIN)\<rparr>))
               else handle_recv env2 sk
                      (emit (OnReadyToSend conn) (s\<lparr>poller := p(fileno sk \<mapsto> EPOLLIN)\<rparr>)))"
    using assms
    by (simp add: handle_fd_mask_def handle_sock_io_def handle_ready_to_send_def and_then_def
        poller_modify_def emit_def Let_def)
next
  fix p m
  assume a: "m AND (EPOLLERR OR EPOLLHUP) \<noteq> 0 \<and> shutdown_completes env2"
  have fd: "map_of (sock_by_fd (s\<lparr>poller := p\<rparr>)) (fileno sk) \<noteq> None"
    using assms(2) by simp
  have sd: "shutdown_completes env2" using a by simp
  have ids: "\<forall>c. map_of (conn_by_sock (s\<lparr>poller := p\<rparr>)) sk = Some c \<longrightarrow>
      map_of (sock_by_conn (s\<lparr>poller := p\<rparr>)) c \<noteq> None"
    using assms(1,3) by simp
  from handle_close_ok [OF fd sd ids]
  obtain s' where s': "handle_close env2 sk (s\<lparr>poller := p\<rparr>) = (Returns (), s')"
      "\<forall>c. map_of (conn_by_sock (s\<lparr>poller := p\<rparr>)) sk = Some c \<longrightarrow>
          map_of (sock_by_conn s') c = None \<and>
          trace s' = trace (s\<lparr>poller := p\<rparr>) @ [SockShutdown sk, SockClose sk] @
             (if is_ssl sk \<and> sk \<in> in_ssl_handshake (s\<lparr>poller := p\<rparr>) then []
              else [OnDisconnect c])"
    by (elim exE conjE) (rule that, assumption+)
  have 1: "trace s' = trace s @ [SockShutdown sk, SockClose sk, OnDisconnect conn]"
    using s'(2) assms(3,5) by simp
  have 2: "handle_fd_mask env2 (fileno sk) m (s\<lparr>poller := p\<rparr>) = (Returns (), s')"
    using assms a s'(1) by (simp add: handle_fd_mask_def handle_sock_err_def)
  show "\<exists>s'. handle_fd_mask env2 (fileno sk) m (s\<lparr>poller := p\<rparr>) = (Returns (), s') \<and>
                  trace s' = trace s @ [SockShutdown sk, SockClose sk, OnDisconnect conn]"
    using 1 2 by blast
qed

theorem send_written_arms_ready_to_send_witness:
  "map_of (sock_by_conn link_connected) ''1fd5'' = Some sock_a \<and>
   map_of (sock_by_fd link_connected) (fileno sock_a) = Some sock_a \<and>
   map_of (conn_by_sock link_connected) sock_a = Some ''1fd5'' \<and>
   fileno sock_a \<noteq> poll_bell_r link_connected \<and>
   sock_a \<notin> in_ssl_handshake link_connected \<and>
   sock_a \<notin> socks_waiting_to_connect link_connected \<and>
   send ((env_pending 0)\<lparr>sock_send := Ok 3\<rparr>) ''1fd5'' ''ping'' link_connected =
     (Returns 3,
      link_connected\<lparr>poller := (poller link_connected)(5 \<mapsto> EPOLLIN OR EPOLLOUT)\<rparr>) \<and>
   handle_fd_mask (env_pending 0) 5 EPOLLOUT
       (link_connected\<lparr>poller := (poller link_connected)(5 \<mapsto> EPOLLIN OR EPOLLOUT)\<rparr>) =
     (Returns (),
      emit (OnReadyToSend ''1fd5'')
        (link_connected
           \<lparr>poller := ((poller link_connected)(5 \<mapsto> EPOLLIN OR EPOLLOUT))(5 \<mapsto> EPOLLIN)\<rparr>)) \<and>
   (\<exists>s'. handle_fd_mask (env_pending 0) 5 (EPOLLOUT OR EPOLLHUP)
           (link_connected\<lparr>poller := (poller link_connected)(5 \<mapsto> EPOLLIN OR EPOLLOUT)\<rparr>) =
           (Returns (), s') \<and>
         trace s' = trace link_connected @
           [SockShutdown sock_a, SockClose sock_a, OnDisconnect ''1fd5''])"
proof -
  have 1: "map_of (sock_by_conn link_connected) ''1fd5'' = Some sock_a"
    by (simp add: link_connected_eq)
  have 2: "map_of (sock_by_fd link_connected) (fileno sock_a) = Some sock_a"
    by (simp add: link_connected_eq sock_a_def)
  have 3: "map_of (conn_by_sock link_connected) sock_a = Some ''1fd5''"
    by (simp add: link_connected_eq)
  have 4: "fileno sock_a \<noteq> poll_bell_r link_connected"
    by (simp add: link_connected_eq sock_a_def)
  have 5: "sock_a \<notin> in_ssl_handshake link_connected"
    by (simp add: link_connected_eq)
  have 6: "sock_a \<notin> socks_waiting_to_connect link_connected"
    by (simp add: link_connected_eq)
  have ok: "sock_send ((env_pending 0)\<lparr>sock_send := Ok 3\<rparr>) = Ok 3" by simp
  have fd: "fileno sock_a = 5" by (simp add: sock_a_def)
  have m1: "EPOLLOUT AND EPOLLOUT \<noteq> 0 \<and> EPOLLOUT AND (EPOLLERR OR EPOLLHUP) = 0"
    "EPOLLOUT AND EPOLLIN = 0"
    by (simp_all add: epoll_defs)
  have m2: "(EPOLLOUT OR EPOLLHUP) AND (EPOLLERR OR EPOLLHUP) \<noteq> 0 \<and>
      shutdown_completes (env_pending 0)"
    by (simp add: epoll_defs shutdown_completes_def env_pending_def)
  note t = send_written_arms_ready_to_send [OF 1 2 3 4 5 6,
        of "(env_pending 0)\<lparr>sock_send := Ok 3\<rparr>" "''ping''" "env_pending 0", unfolded fd]
  have a: "send ((env_pending 0)\<lparr>sock_send := Ok 3\<rparr>) ''1fd5'' ''ping'' link_connected =
     (Returns 3,
      link_connected\<lparr>poller := (poller link_connected)(5 \<mapsto> EPOLLIN OR EPOLLOUT)\<rparr>)"
    using t ok by blast
  have "handle_fd_mask (env_pending 0) 5 EPOLLOUT
       (link_connected\<lparr>poller := (poller link_connected)(5 \<mapsto> EPOLLIN OR EPOLLOUT)\<rparr>) =
     (if EPOLLOUT AND EPOLLIN = 0
      then (Returns (),
            emit (OnReadyToSend ''1fd5'')
              (link_connected
                 \<lparr>poller := ((poller link_connected)(5 \<mapsto> EPOLLIN OR EPOLLOUT))
                              (5 \<mapsto> EPOLLIN)\<rparr>))
      else if 5 \<in> listen_socks_filenos link_connected
      then handle_accept (env_pending 0) sock_a
             (emit (OnReadyToSend ''1fd5'')
               (link_connected
                  \<lparr>poller := ((poller link_connected)(5 \<mapsto> EPOLLIN OR EPOLLOUT))
                               (5 \<mapsto> EPOLLIN)\<rparr>))
      else handle_recv (env_pending 0) sock_a
             (emit (OnReadyToSend ''1fd5'')
               (link_connected
                  \<lparr>poller := ((poller link_connected)(5 \<mapsto> EPOLLIN OR EPOLLOUT))
                               (5 \<mapsto> EPOLLIN)\<rparr>)))"
    using t m1(1) by blast
  then have b: "handle_fd_mask (env_pending 0) 5 EPOLLOUT
       (link_connected\<lparr>poller := (poller link_connected)(5 \<mapsto> EPOLLIN OR EPOLLOUT)\<rparr>) =
     (Returns (),
      emit (OnReadyToSend ''1fd5'')
        (link_connected
           \<lparr>poller := ((poller link_connected)(5 \<mapsto> EPOLLIN OR EPOLLOUT))(5 \<mapsto> EPOLLIN)\<rparr>))"
    by (simp add: m1(2))
  have c: "\<exists>s'. handle_fd_mask (env_pending 0) 5 (EPOLLOUT OR EPOLLHUP)
           (link_connected\<lparr>poller := (poller link_connected)(5 \<mapsto> EPOLLIN OR EPOLLOUT)\<rparr>) =
           (Returns (), s') \<and>
         trace s' = trace link_connected @
           [SockShutdown sock_a, SockClose sock_a, OnDisconnect ''1fd5'']"
    using t m2 by blast
  show ?thesis
    using 1 2 3 4 5 6 a b c by blast
qed

theorem send_would_block_interest_counterexample:
  "map_of (sock_by_conn link_connected) ''1fd5'' = Some sock_a \<and>
   fileno sock_a = 5 \<and>
   sock_send (env_pending 0) = Err EWOULDBLOCK \<and>
   send (env_pending 0) ''1fd5'' ''ping'' link_connected = (Returns 0, link_connected) \<and>
   poller link_connected 5 = Some EPOLLIN \<and>
   EPOLLIN AND EPOLLOUT = 0"
  by (simp add: send_def link_connected_eq env_pending_def sock_a_def epoll_defs)

subsection \<open>What every operation keeps\<close>

lemma keeps_refl: "keeps s s"
  by (simp add: keeps_def)

lemma keeps_trans: "keeps s t \<Longrightarrow> keeps t u \<Longrightarrow> keeps s u"
  by (auto simp: keeps_def)

lemma plan_connect_keeps: "keeps s (plan_connect w a s)"
  by (simp add: keeps_def plan_connect_def Let_def sorted_list_insert_bisect)

lemma plan_connect_keeps': "keeps s t \<Longrightarrow> keeps s (plan_connect w a t)"
  using keeps_trans plan_connect_keeps by blast

lemma new_connection_id_keeps: "new_connection_id sk s = (c, s') \<Longrightarrow> keeps s s'"
  by (auto simp: keeps_def new_connection_id_def Let_def)

lemma del_connection_id_keeps: "del_connection_id sk s = (r, s') \<Longrightarrow> keeps s s'"
  by (auto simp: keeps_def del_connection_id_def Let_def split: option.splits if_splits)

lemma handle_close_keeps: "handle_close env sk s = (r, s') \<Longrightarrow> keeps s s'"
  by (auto simp: handle_close_def del_connection_id_def and_then_def emit_def
      poller_unregister_def Let_def keeps_def plan_connect_def sorted_list_insert_bisect
      split: option.splits syscall.splits if_splits prod.splits outcome.splits)

lemma ssl_handshake_keeps: "ssl_handshake env sk s = (r, s') \<Longrightarrow> keeps s s'"
  by (auto simp: ssl_handshake_def and_then_def poller_modify_def keeps_def
      split: handshake_step.splits if_splits prod.splits outcome.splits
      dest: handle_close_keeps[unfolded keeps_def])

lemma handle_connect_keeps: "handle_connect env sk s = (r, s') \<Longrightarrow> keeps s s'"
  by (auto simp: handle_connect_def and_then_def poller_modify_def emit_def keeps_def
      new_connection_id_def Let_def
      split: if_splits prod.splits outcome.splits
      dest: ssl_handshake_keeps[unfolded keeps_def])

lemma connect_keeps: "connect env a s = (r, s') \<Longrightarrow> keeps s s'"
  by (auto simp: connect_def poller_register_def emit_def keeps_def Let_def
      split: if_splits option.splits
      dest: handle_connect_keeps[unfolded keeps_def])

lemma add_connector_keeps: "add_connector env a i c s = (r, s') \<Longrightarrow> keeps s s'"
  by (auto simp: add_connector_def keeps_def Let_def plan_connect_def sorted_list_insert_bisect
      split: option.splits if_splits)

lemma del_connector_keeps: "del_connector a s = (r, s') \<Longrightarrow> keeps s s'"
  by (auto simp: del_connector_def keeps_def Let_def sorted_wrt_filter
      split: option.splits if_splits)

lemma add_listener_keeps: "add_listener env a c s = (r, s') \<Longrightarrow> keeps s s'"
  by (auto simp: add_listener_def keeps_def Let_def poller_register_def
      split: option.splits if_splits syscall.splits)

lemma del_listener_keeps: "del_listener a s = (r, s') \<Longrightarrow> keeps s s'"
  by (auto simp: del_listener_def keeps_def Let_def emit_def split: option.splits if_splits)

lemma handle_conn_refused_keeps: "handle_conn_refused env sk s = (r, s') \<Longrightarrow> keeps s s'"
  by (auto simp: handle_conn_refused_def keeps_def Let_def emit_def poller_unregister_def
      plan_connect_def sorted_list_insert_bisect split: option.splits if_splits)

lemma close_keeps: "close env c s = (r, s') \<Longrightarrow> keeps s s'"
  by (auto simp: close_def keeps_refl split: option.splits dest: handle_close_keeps)

lemma send_keeps: "send env c d s = (r, s') \<Longrightarrow> keeps s s'"
  by (auto simp: send_def and_then_def poller_modify_def keeps_def
      split: option.splits syscall.splits if_splits prod.splits outcome.splits
      dest: handle_close_keeps[unfolded keeps_def])

lemma handle_ready_to_send_keeps: "handle_ready_to_send sk s = (r, s') \<Longrightarrow> keeps s s'"
  by (auto simp: handle_ready_to_send_def keeps_def Let_def emit_def poller_modify_def
      split: option.splits)

lemma handle_accept_keeps: "handle_accept env sk s = (r, s') \<Longrightarrow> keeps s s'"
  by (auto simp: handle_accept_def and_then_def poller_register_def emit_def keeps_def
      new_connection_id_def Let_def
      split: if_splits prod.splits outcome.splits option.splits syscall.splits
      dest: ssl_handshake_keeps[unfolded keeps_def])

lemma recv_except_keeps: "recv_except env sk err s = (r, s') \<Longrightarrow> keeps s s'"
  by (auto simp: recv_except_def keeps_refl split: if_splits dest: handle_close_keeps)

lemma handle_recv_keeps: "handle_recv env sk s = (r, s') \<Longrightarrow> keeps s s'"
proof -
  assume a: "handle_recv env sk s = (r, s')"
  obtain rc sc where c: "handle_close env sk s = (rc, sc)" by (cases "handle_close env sk s")
  have kc: "keeps s sc" using c by (rule handle_close_keeps)
  have ke: "\<And>err. recv_except env sk err sc = (r, s') \<Longrightarrow> keeps s s'"
    using kc recv_except_keeps keeps_trans by blast
  have ks: "\<And>err. recv_except env sk err s = (r, s') \<Longrightarrow> keeps s s'"
    by (rule recv_except_keeps)
  show ?thesis
    using a c kc ke ks
    by (auto simp: handle_recv_def emit_def keeps_def
        split: option.splits syscall.splits if_splits outcome.splits error.splits)
qed

lemma handle_sock_err_keeps: "handle_sock_err env sk s = (r, s') \<Longrightarrow> keeps s s'"
  by (auto simp: handle_sock_err_def split: if_splits
      dest: handle_close_keeps handle_conn_refused_keeps)

lemma and_then_keeps:
  assumes "and_then p f = (r, s')" and "keeps s (snd p)"
    and "\<And>x t r' t'. f x t = (r', t') \<Longrightarrow> keeps t t'"
  shows "keeps s s'"
proof (cases p)
  case (Pair r1 s1)
  show ?thesis
  proof (cases r1)
    case (Raises e)
    with Pair assms(1,2) show ?thesis by (simp add: and_then_def)
  next
    case (Returns x)
    with Pair assms(1) have "f x s1 = (r, s')" by (simp add: and_then_def)
    then have "keeps s1 s'" by (rule assms(3))
    with Pair assms(2) show ?thesis using keeps_trans by auto
  qed
qed

lemma handle_sock_io_keeps: "handle_sock_io env fd sk m s = (r, s') \<Longrightarrow> keeps s s'"
  unfolding handle_sock_io_def
proof (erule and_then_keeps)
  show "keeps s (snd (if m AND EPOLLOUT \<noteq> 0
        then if sk \<in> socks_waiting_to_connect s then handle_connect env sk s
             else handle_ready_to_send sk s
        else (Returns (), s)))"
    using handle_connect_keeps [OF prod.collapse[symmetric]]
      handle_ready_to_send_keeps [OF prod.collapse[symmetric]]
    by (simp add: keeps_refl)
next
  fix x :: unit and t r' t'
  assume "(if m AND EPOLLIN \<noteq> 0
        then if fd \<in> listen_socks_filenos t then handle_accept env sk t
             else handle_recv env sk t
        else (Returns (), t)) = (r', t')"
  then show "keeps t t'"
    by (auto simp: keeps_refl split: if_splits dest: handle_accept_keeps handle_recv_keeps)
qed

lemma handle_fd_mask_keeps: "handle_fd_mask env fd m s = (r, s') \<Longrightarrow> keeps s s'"
  by (auto simp: handle_fd_mask_def and_then_def keeps_def emit_def
      split: if_splits prod.splits outcome.splits option.splits
      dest: handle_sock_err_keeps[unfolded keeps_def] ssl_handshake_keeps[unfolded keeps_def]
        handle_sock_io_keeps[unfolded keeps_def])

lemma deal_finish_keeps: "keeps s (deal_finish i s)"
  by (simp add: deal_finish_def keeps_def sorted_wrt_drop)

lemma deal_loop_keeps:
  assumes "deal_loop now envs i s = Some r"
  shows "keeps s (snd r)"
proof (rule deal_loop.raw_induct [where P = "\<lambda>now envs i s r. keeps s (snd r)", OF _ assms],
    goal_cases)
  case (1 deal_loop' now envs i s r)
  show ?case
  proof (cases "i < length (plannned_connections s)")
    case False
    with 1(2) have "r = (Returns (), deal_finish i s)" by auto
    then show ?thesis by (simp add: deal_finish_keeps)
  next
    case True
    obtain w address where e: "plannned_connections s ! i = (w, address)"
      by (cases "plannned_connections s ! i")
    show ?thesis
    proof (cases "map_of (reconnect_intervals s) address")
      case None
      with 1(2) True e have "r = (Raises KeyError, s)" by auto
      then show ?thesis by (simp add: keeps_refl)
    next
      case (Some interval)
      show ?thesis
      proof (cases "w \<le> now \<or> w > now + interval * 2")
        case False
        with 1(2) True e Some have "r = (Returns (), deal_finish i s)" by auto
        then show ?thesis by (simp add: deal_finish_keeps)
      next
        case due: True
        obtain x s1 where c: "connect (envs i) address s = (x, s1)"
          by (cases "connect (envs i) address s")
        have k: "keeps s s1" using c by (rule connect_keeps)
        show ?thesis
        proof (cases x)
          case (Raises err)
          with 1(2) True e Some due c have "r = (Raises err, s1)" by auto
          with k show ?thesis by simp
        next
          case (Returns u)
          with 1(2) True e Some due c have "deal_loop' now envs (i + 1) s1 = Some r" by auto
          then have "keeps s1 (snd r)" by (rule 1(1))
          with k show ?thesis by (rule keeps_trans)
        qed
      qed
    qed
  qed
qed

lemma deal_connects_keeps: "deal_connects now envs s = Some r \<Longrightarrow> keeps s (snd r)"
  unfolding deal_connects_def by (rule deal_loop_keeps)

lemma for_each_keeps:
  assumes "\<And>x s r s'. f x s = (r, s') \<Longrightarrow> keeps s s'"
  shows "for_each f xs s = (r, s') \<Longrightarrow> keeps s s'"
proof (induction xs arbitrary: s)
  case Nil
  then show ?case by (simp add: keeps_refl)
next
  case (Cons x xs)
  obtain r1 s1 where f: "f x s = (r1, s1)" by (cases "f x s")
  have k: "keeps s s1" using f by (rule assms)
  show ?case
  proof (cases r1)
    case (Raises e)
    with Cons.prems f k show ?thesis by (simp add: and_then_def)
  next
    case (Returns u)
    with Cons.prems f have "for_each f xs s1 = (r, s')" by (simp add: and_then_def)
    then have "keeps s1 s'" by (rule Cons.IH)
    with k show ?thesis by (rule keeps_trans)
  qed
qed

lemma cleanup_keeps: "cleanup envs s = (r, s') \<Longrightarrow> keeps s s'"
proof -
  assume a: "cleanup envs s = (r, s')"
  show ?thesis
  proof (cases "do_loop s")
    case True
    with a show ?thesis by (simp add: cleanup_def keeps_refl)
  next
    case False
    define s1 where "s1 = emit BellClose s"
    have k1: "keeps s s1" by (simp add: s1_def emit_def keeps_def)
    obtain r2 s2 where l2: "for_each del_connector (map fst (connectors s1)) s1 = (r2, s2)"
      by (cases "for_each del_connector (map fst (connectors s1)) s1")
    have k2: "keeps s1 s2" using l2 by (rule for_each_keeps[rotated]) (rule del_connector_keeps)
    show ?thesis
    proof (cases r2)
      case (Raises e)
      with a False l2 have "s' = s2" by (simp add: cleanup_def Let_def s1_def and_then_def)
      with k1 k2 show ?thesis using keeps_trans by blast
    next
      case R2: (Returns u2)
      obtain r3 s3 where l3: "for_each del_listener (map fst (listen_socks s2)) s2 = (r3, s3)"
        by (cases "for_each del_listener (map fst (listen_socks s2)) s2")
      have k3: "keeps s2 s3" using l3 by (rule for_each_keeps[rotated]) (rule del_listener_keeps)
      show ?thesis
      proof (cases r3)
        case (Raises e)
        with a False l2 R2 l3 have "s' = s3"
          by (simp add: cleanup_def Let_def s1_def and_then_def)
        with k1 k2 k3 show ?thesis using keeps_trans by blast
      next
        case R3: (Returns u3)
        obtain r4 s4 where l4:
          "for_each (\<lambda>sk. handle_close (envs sk) sk) (map snd (sock_by_fd s3)) s3 = (r4, s4)"
          by (cases "for_each (\<lambda>sk. handle_close (envs sk) sk) (map snd (sock_by_fd s3)) s3")
        have k4: "keeps s3 s4"
          using l4 by (rule for_each_keeps[rotated]) (rule handle_close_keeps)
        have "s' = s4"
          using a False l2 R2 l3 R3 l4
          by (cases r4) (auto simp: cleanup_def Let_def s1_def and_then_def split: if_splits)
        with k1 k2 k3 k4 show ?thesis using keeps_trans by blast
      qed
    qed
  qed
qed

lemma link_step_keeps: "link_step s t \<Longrightarrow> keeps s t"
proof (induction rule: link_step.induct)
  case (step_add_connector s env addr interval cfg)
  show ?case by (rule add_connector_keeps) (rule prod.collapse[symmetric])
next
  case (step_del_connector s addr)
  show ?case by (rule del_connector_keeps) (rule prod.collapse[symmetric])
next
  case (step_add_listener s env addr cfg)
  show ?case by (rule add_listener_keeps) (rule prod.collapse[symmetric])
next
  case (step_del_listener s addr)
  show ?case by (rule del_listener_keeps) (rule prod.collapse[symmetric])
next
  case (step_send s env conn data)
  show ?case by (rule send_keeps) (rule prod.collapse[symmetric])
next
  case (step_close s env conn)
  show ?case by (rule close_keeps) (rule prod.collapse[symmetric])
next
  case (step_stop s)
  show ?case by (simp add: stop_def keeps_def)
next
  case (step_loop_enter s)
  show ?case by (simp add: loop_enter_def keeps_def)
next
  case (step_new_connection_id s sk)
  show ?case by (rule new_connection_id_keeps) (rule prod.collapse[symmetric])
next
  case (step_del_connection_id s sk)
  show ?case by (rule del_connection_id_keeps) (rule prod.collapse[symmetric])
next
  case (step_plan_connect s w addr)
  show ?case by (rule plan_connect_keeps)
next
  case (step_connect s env addr)
  show ?case by (rule connect_keeps) (rule prod.collapse[symmetric])
next
  case (step_ssl_handshake s env sk)
  show ?case by (rule ssl_handshake_keeps) (rule prod.collapse[symmetric])
next
  case (step_handle_connect s env sk)
  show ?case by (rule handle_connect_keeps) (rule prod.collapse[symmetric])
next
  case (step_handle_accept s env sk)
  show ?case by (rule handle_accept_keeps) (rule prod.collapse[symmetric])
next
  case (step_handle_recv s env sk)
  show ?case by (rule handle_recv_keeps) (rule prod.collapse[symmetric])
next
  case (step_handle_conn_refused s env sk)
  show ?case by (rule handle_conn_refused_keeps) (rule prod.collapse[symmetric])
next
  case (step_handle_close s env sk)
  show ?case by (rule handle_close_keeps) (rule prod.collapse[symmetric])
next
  case (step_handle_ready_to_send s sk)
  show ?case by (rule handle_ready_to_send_keeps) (rule prod.collapse[symmetric])
next
  case (step_handle_sock_err s env sk)
  show ?case by (rule handle_sock_err_keeps) (rule prod.collapse[symmetric])
next
  case (step_handle_sock_io s env fd sk eventmask)
  show ?case by (rule handle_sock_io_keeps) (rule prod.collapse[symmetric])
next
  case (step_handle_fd_mask s env fd eventmask)
  show ?case by (rule handle_fd_mask_keeps) (rule prod.collapse[symmetric])
next
  case (step_deal_connects now envs s r)
  then show ?case by (rule deal_connects_keeps)
next
  case (step_cleanup s cenvs)
  show ?case by (rule cleanup_keeps) (rule prod.collapse[symmetric])
qed

lemma link_steps_keeps: "link_step\<^sup>*\<^sup>* s t \<Longrightarrow> keeps s t"
  by (induction rule: rtranclp_induct) (auto intro: keeps_refl keeps_trans link_step_keeps)

subsection \<open>The plan stays sorted\<close>

lemma reachable_sorted: "reachable s \<Longrightarrow> sorted (plannned_connections s)"
proof -
  assume "reachable s"
  then obtain bell_r where "link_step\<^sup>*\<^sup>* (link_init bell_r) s"
    by (auto simp: reachable_def)
  then have "keeps (link_init bell_r) s" by (rule link_steps_keeps)
  then show ?thesis by (simp add: keeps_def link_init_def)
qed

lemma del_connector_no_entry:
  "del_connector addr s = (Returns (), s') \<Longrightarrow> addr \<notin> snd ` set (plannned_connections s')"
  by (auto simp: del_connector_def Let_def split: option.splits if_splits)

text \<open>
  C8. In every state that a sequence of calls of the methods of the \<open>Link\<close> reaches from
  a new object (\<open>add_connector\<close>, \<open>del_connector\<close>, \<open>plan_connect\<close>, \<open>deal_connects\<close> and
  all the others, returning or raising), the plan is sorted as Python compares its
  tuples, hence ascending by due time; one more call of any method keeps it so; and when
  \<open>del_connector\<close> returns, the plan has no entry for the deleted address.
\<close>

theorem plan_stays_sorted:
  assumes "reachable s"
  shows "sorted (plannned_connections s) \<and>
         sorted (map fst (plannned_connections s)) \<and>
         (\<forall>t. link_step s t \<longrightarrow> sorted (map fst (plannned_connections t))) \<and>
         (\<forall>addr s'. del_connector addr s = (Returns (), s') \<longrightarrow>
            addr \<notin> snd ` set (plannned_connections s') \<and>
            sorted (map fst (plannned_connections s')))"
proof -
  have 1: "sorted (plannned_connections s)" using assms by (rule reachable_sorted)
  have 2: "\<And>t. link_step s t \<Longrightarrow> sorted (map fst (plannned_connections t))"
    using 1 link_step_keeps by (auto simp: keeps_def sorted_map_fst)
  have 3: "\<And>addr s'. del_connector addr s = (Returns (), s') \<Longrightarrow>
      sorted (map fst (plannned_connections s'))"
    using 1 del_connector_keeps by (auto simp: keeps_def sorted_map_fst dest!: del_connector_keeps)
  show ?thesis
    using 1 2 3 del_connector_no_entry by (simp add: sorted_map_fst)
qed

theorem plan_stays_sorted_witness:
  "reachable link_one_connector \<and>
   plannned_connections link_one_connector = [(0, addr_a)] \<and>
   sorted (map fst (plannned_connections link_one_connector)) \<and>
   del_connector addr_a link_one_connector =
     (Returns (), link_one_connector\<lparr>connectors := [], reconnect_intervals := [],
                                      plannned_connections := []\<rparr>) \<and>
   addr_a \<notin> snd ` set (plannned_connections
     (link_one_connector\<lparr>connectors := [], reconnect_intervals := [],
                          plannned_connections := []\<rparr>))"
proof -
  have "link_step (link_init 3)
          (snd (add_connector (env_pending 0) addr_a None None (link_init 3)))"
    by (rule step_add_connector)
  then have 1: "reachable link_one_connector"
    unfolding reachable_def link_one_connector_def by blast
  have 2: "del_connector addr_a link_one_connector =
     (Returns (), link_one_connector\<lparr>connectors := [], reconnect_intervals := [],
                                      plannned_connections := []\<rparr>)"
    by (simp add: del_connector_def link_one_connector_eq link_init_def Let_def)
  have 3: "plannned_connections link_one_connector = [(0, addr_a)]"
    by (simp add: link_one_connector_eq)
  show ?thesis
    using 1 2 3 plan_stays_sorted [OF 1] by simp
qed

subsection \<open>Connection identifiers are never reused\<close>














subsection \<open>Cleaning up with a socket in the handshake set\<close>

lemma link_tls_connector_reached:
  "add_connector (env_pending 0) addr_a None (Some tls_config) (link_init 3) =
     (Returns addr_a, link_tls_connector)"
  by (simp add: add_connector_def env_pending_def link_init_def plan_connect_def bisect_Nil
      list_insert_def addr_a_def RECONNECT_INTERVAL_def Let_def link_tls_connector_def)

lemma link_tls_connecting_reached:
  "deal_connects 97 env_pending link_tls_connector = Some (Returns (), link_tls_connecting)"
  unfolding deal_connects_def
  apply (subst deal_loop.simps)
  apply (simp add: link_tls_connector_def link_init_def)
  apply (subst deal_loop.simps)
  apply (simp add: connect_def env_pending_def plain_socket_def wrap_socket_def
      link_tls_connecting_def link_tls_connector_def sock_tls_def link_init_def
      poller_register_def emit_def errno_defs epoll_defs deal_finish_def Let_def)
  done

lemma link_tls_handshaking_reached:
  "handle_fd_mask (env_pending 0) 5 EPOLLOUT link_tls_connecting =
     (Returns (), link_tls_handshaking)"
  by (simp add: handle_fd_mask_def handle_sock_io_def handle_connect_def ssl_handshake_def
      new_connection_id_def and_then_def poller_modify_def emit_def epoll_defs Let_def
      str_int_1 str_int_5 link_tls_handshaking_def link_tls_connecting_def
      link_tls_connector_def link_init_def sock_tls_def env_pending_def RECONNECT_INTERVAL_def)

lemma link_tls_handshaking_reachable: "reachable link_tls_handshaking"
proof -
  have "link_step (link_init 3)
      (snd (add_connector (env_pending 0) addr_a None (Some tls_config) (link_init 3)))"
    by (rule step_add_connector)
  then have 1: "link_step (link_init 3) link_tls_connector"
    by (simp add: link_tls_connector_reached)
  have "link_step link_tls_connector (snd (Returns (), link_tls_connecting))"
    using link_tls_connecting_reached by (rule step_deal_connects)
  then have 2: "link_step link_tls_connector link_tls_connecting" by simp
  have "link_step link_tls_connecting
      (snd (handle_fd_mask (env_pending 0) 5 EPOLLOUT link_tls_connecting))"
    by (rule step_handle_fd_mask)
  then have 3: "link_step link_tls_connecting link_tls_handshaking"
    by (simp add: link_tls_handshaking_reached)
  have "link_step\<^sup>*\<^sup>* (link_init 3) link_tls_handshaking"
    using 1 2 3 by (meson rtranclp.rtrancl_into_rtrancl rtranclp.rtrancl_refl)
  then show ?thesis unfolding reachable_def by blast
qed

text \<open>Nothing that \<open>cleanup\<close> calls takes a socket out of the handshake set.\<close>

lemma del_connector_handshake:
  "in_ssl_handshake (snd (del_connector a s)) = in_ssl_handshake s"
  by (simp add: del_connector_def Let_def split: option.splits)

lemma del_listener_handshake:
  "in_ssl_handshake (snd (del_listener a s)) = in_ssl_handshake s"
  by (simp add: del_listener_def Let_def emit_def split: option.splits)

lemma handle_close_handshake:
  "in_ssl_handshake (snd (handle_close env sk s)) = in_ssl_handshake s"
  by (simp add: handle_close_def del_connection_id_def and_then_def emit_def plan_connect_def
      poller_unregister_def Let_def split: option.splits syscall.splits)

lemma for_each_handshake:
  assumes "\<And>x s. in_ssl_handshake (snd (f x s)) = in_ssl_handshake s"
  shows "in_ssl_handshake (snd (for_each f xs s)) = in_ssl_handshake s"
proof (induction xs arbitrary: s)
  case Nil
  show ?case by simp
next
  case (Cons x xs)
  obtain r1 s1 where f: "f x s = (r1, s1)" by (cases "f x s")
  have 1: "in_ssl_handshake s1 = in_ssl_handshake s" using assms [of x s] f by simp
  show ?case
  proof (cases r1)
    case (Raises e)
    with f 1 show ?thesis by (simp add: and_then_def)
  next
    case (Returns u)
    with f 1 Cons.IH [of s1] show ?thesis by (simp add: and_then_def)
  qed
qed

lemma cleanup_handshake: "in_ssl_handshake (snd (cleanup envs s)) = in_ssl_handshake s"
proof (cases "do_loop s")
  case True
  then show ?thesis by (simp add: cleanup_def)
next
  case False
  define s1 where "s1 = emit BellClose s"
  obtain r2 s2 where l2: "for_each del_connector (map fst (connectors s1)) s1 = (r2, s2)"
    by (cases "for_each del_connector (map fst (connectors s1)) s1")
  have h2: "in_ssl_handshake s2 = in_ssl_handshake s"
    using for_each_handshake [of del_connector "map fst (connectors s1)" s1,
        OF del_connector_handshake] l2
    by (simp add: s1_def emit_def)
  obtain r3 s3 where l3: "for_each del_listener (map fst (listen_socks s2)) s2 = (r3, s3)"
    by (cases "for_each del_listener (map fst (listen_socks s2)) s2")
  have h3: "in_ssl_handshake s3 = in_ssl_handshake s"
    using for_each_handshake [of del_listener "map fst (listen_socks s2)" s2,
        OF del_listener_handshake] l3 h2
    by simp
  obtain r4 s4 where l4:
    "for_each (\<lambda>sk. handle_close (envs sk) sk) (map snd (sock_by_fd s3)) s3 = (r4, s4)"
    by (cases "for_each (\<lambda>sk. handle_close (envs sk) sk) (map snd (sock_by_fd s3)) s3")
  have h4: "in_ssl_handshake s4 = in_ssl_handshake s"
    using for_each_handshake [of "\<lambda>sk. handle_close (envs sk) sk" "map snd (sock_by_fd s3)" s3,
        OF handle_close_handshake] l4 h3
    by simp
  show ?thesis
    using False l2 l3 l4 h2 h3 h4
    by (cases r2; cases r3; cases r4)
      (simp_all add: cleanup_def Let_def and_then_def s1_def [symmetric])
qed

lemma cleanup_returns_only_without_handshake:
  assumes "cleanup envs s = (Returns (), s')"
  shows "in_ssl_handshake s = {}"
proof -
  have "registries_empty s'"
    using assms
    by (auto simp: cleanup_def Let_def and_then_def
        split: if_splits prod.splits outcome.splits)
  then have "in_ssl_handshake s' = {}" by (simp add: registries_empty_def)
  moreover have "in_ssl_handshake s' = in_ssl_handshake s"
    using cleanup_handshake [of envs s] assms by simp
  ultimately show ?thesis by simp
qed

text \<open>
  C6. The state \<open>link_tls_handshaking\<close> is reached from a new \<open>Link\<close> by
  \<open>add_connector\<close> with a TLS configuration, \<open>deal_connects\<close> and one writable event, and
  the loop is not running. There \<open>cleanup\<close> closes the socket and empties every other
  registry, but the socket stays in the handshake set, and the last assertion of
  \<open>cleanup\<close> fails: \<open>handle_close\<close> never discards a socket from that set.
\<close>

theorem cleanup_fails_with_socket_in_handshake:
  "reachable link_tls_handshaking \<and> \<not> do_loop link_tls_handshaking \<and>
   fst (cleanup env_closing link_tls_handshaking) = Raises AssertionError \<and>
   in_ssl_handshake (snd (cleanup env_closing link_tls_handshaking)) = {sock_tls} \<and>
   SockClose sock_tls \<in> set (trace (snd (cleanup env_closing link_tls_handshaking))) \<and>
   sock_by_fd (snd (cleanup env_closing link_tls_handshaking)) = [] \<and>
   conn_by_sock (snd (cleanup env_closing link_tls_handshaking)) = [] \<and>
   sock_by_conn (snd (cleanup env_closing link_tls_handshaking)) = [] \<and>
   connectors (snd (cleanup env_closing link_tls_handshaking)) = [] \<and>
   socks_addresses (snd (cleanup env_closing link_tls_handshaking)) = [] \<and>
   socks_waiting_to_connect (snd (cleanup env_closing link_tls_handshaking)) = {} \<and>
   plannned_connections (snd (cleanup env_closing link_tls_handshaking)) = [] \<and>
   reconnect_intervals (snd (cleanup env_closing link_tls_handshaking)) = [] \<and>
   ssl_config (snd (cleanup env_closing link_tls_handshaking)) = []"
proof -
  have "cleanup env_closing link_tls_handshaking =
     (Raises AssertionError,
      link_tls_handshaking
        \<lparr>poller := [3 \<mapsto> EPOLLIN], sock_by_fd := [], conn_by_sock := [], sock_by_conn := [],
         connectors := [], socks_addresses := [], reconnect_intervals := [],
         ssl_config := [],
         trace := [SockConnect sock_tls addr_a, BellClose, SockShutdown sock_tls,
                   SockClose sock_tls]\<rparr>)"
    by (simp add: cleanup_def link_tls_handshaking_def del_connector_def handle_close_def
        del_connection_id_def and_then_def emit_def poller_unregister_def registries_empty_def
        env_closing_def env_pending_def sock_tls_def Let_def epoll_defs)
  then show ?thesis
    using link_tls_handshaking_reachable by (simp add: link_tls_handshaking_def)
qed

end
